theory Spec2Isabelle
  imports Complex_Main
begin

section \<open>Die placement on a circular wafer: the model\<close>

text \<open>
  The embedding follows \<^verbatim>\<open>src/backup.py\<close> (the geometry helpers, the counting
  routine for one offset and the three fixed-offset optimiser) and
  \<^verbatim>\<open>src/dieopt/api.py\<close> (argument coercion and the public \<^verbatim>\<open>dieopt\<close> call).

  Numbers: Python floats are modelled as exact reals, so \<^verbatim>\<open>math.hypot\<close> is the exact
  Euclidean norm and \<^verbatim>\<open>1e-9\<close> is exactly \<open>1 / 10 ^ 9\<close>; rounding is not modelled.
  Python integers are \<open>int\<close>. A numpy array of shape (N, 2) is a list of pairs, a
  boolean mask is a list of booleans, and indexing an array with a mask keeps the
  rows whose mask entry is true. Exceptions are values of the type \<open>error\<close>.
\<close>

subsection \<open>Data model\<close>

type_synonym point = "real \<times> real"

record Wafer =
  diameter :: real
  edge_exclusion :: real

record Die =
  width :: real
  height :: real
  scribe :: real

record PlacementResult =
  dpw :: int
  angle_deg :: real
  offset :: "real \<times> real"
  positions :: "point list"

record ThreeRunSummary =
  best :: PlacementResult
  per_iter :: "(string \<times> PlacementResult) list"
  note_iter2 :: string

text \<open>Modelled from the spec: the exception class \<^verbatim>\<open>DieOptError\<close> is declared in
  \<^verbatim>\<open>dieopt/models.py\<close>, which is not among the sources; it is the configuration error
  of the boundary layers and carries the message it is raised with. The two other
  constructors are Python's built-in exceptions.\<close>

datatype error = DieOptError string | ZeroDivisionError | KeyError string

subsection \<open>numpy idioms\<close>

text \<open>\<^verbatim>\<open>a[mask]\<close>: the rows of \<open>a\<close> whose mask entry is true.\<close>

definition mask_select :: "'a list \<Rightarrow> bool list \<Rightarrow> 'a list" where
  "mask_select xs msk = map fst (filter snd (zip xs msk))"

text \<open>\<^verbatim>\<open>a.reshape(-1, k)\<close> on a flat array: consecutive rows of \<open>k\<close> entries.
  (numpy raises when the length is not a multiple of \<open>k\<close>; the only call reshapes
  an array of \<open>4 * N\<close> entries into rows of 4.)\<close>

function reshape_rows :: "nat \<Rightarrow> 'a list \<Rightarrow> 'a list list" where
  "reshape_rows k xs =
     (if k = 0 \<or> xs = [] then [] else take k xs # reshape_rows k (drop k xs))"
  by pat_completeness auto
termination
  by (relation "measure (\<lambda>(k, xs). length xs)") auto

declare reshape_rows.simps [simp del]

text \<open>\<^verbatim>\<open>np.meshgrid(grid_x, grid_y, indexing='xy')\<close> followed by
  \<^verbatim>\<open>np.column_stack([X.ravel(), Y.ravel()])\<close>: the rows run over \<open>grid_y\<close>
  (outer) and \<open>grid_x\<close> (inner).\<close>

definition meshgrid_xy :: "real list \<Rightarrow> real list \<Rightarrow> point list" where
  "meshgrid_xy grid_x grid_y = concat (map (\<lambda>y. map (\<lambda>x. (x, y)) grid_x) grid_y)"

text \<open>\<^verbatim>\<open>math.hypot\<close>.\<close>

definition hypot :: "real \<Rightarrow> real \<Rightarrow> real" where
  "hypot x y = sqrt (x * x + y * y)"

subsection \<open>Geometry helpers (backup.py, lines 30-44)\<close>

definition usable_radius :: "Wafer \<Rightarrow> real" where
  "usable_radius w = 0.5 * diameter w - edge_exclusion w"

definition corners_local :: "real \<Rightarrow> real \<Rightarrow> point list" where
  "corners_local w_die h_die =
     (let hw = 0.5 * w_die; hh = 0.5 * h_die
      in [(- hw, - hh), (hw, - hh), (hw, hh), (- hw, hh)])"

text \<open>The default value of the parameter \<^verbatim>\<open>tol\<close> of \<^verbatim>\<open>_within_circle\<close>.\<close>

definition tol_default :: real where
  "tol_default = 1 / 10 ^ 9"

definition within_circle :: "point list \<Rightarrow> real \<Rightarrow> real \<Rightarrow> bool list" where
  "within_circle points R tol =
     map (\<lambda>p. fst p * fst p + snd p * snd p \<le> (R * R) * (1 + tol)) points"

subsection \<open>Counting for one offset (backup.py, lines 49-85)\<close>

text \<open>Python's float division raises \<^verbatim>\<open>ZeroDivisionError\<close> on a zero pitch.
  \<^verbatim>\<open>np.arange(-ix, ix + 1)\<close> is the list \<open>[- ix..ix]\<close>, empty when \<open>ix < 0\<close>.\<close>

definition grid_bounds :: "real \<Rightarrow> real \<Rightarrow> real \<Rightarrow> error + (int list \<times> int list)" where
  "grid_bounds R pitch_x pitch_y =
     (let max_half = R + max pitch_x pitch_y
      in if pitch_x = 0 then Inl ZeroDivisionError
         else let ix = \<lceil>max_half / pitch_x\<rceil>
              in if pitch_y = 0 then Inl ZeroDivisionError
                 else let iy = \<lceil>max_half / pitch_y\<rceil>
                      in Inr ([- ix..ix], [- iy..iy]))"

text \<open>Lines 61-66: the candidate centres, in enumeration order.\<close>

definition lattice_centres ::
  "real \<Rightarrow> real \<Rightarrow> real \<Rightarrow> real \<Rightarrow> real \<Rightarrow> error + point list" where
  "lattice_centres R px py x_off y_off =
     (case grid_bounds R px py of
        Inl e \<Rightarrow> Inl e
      | Inr (ix, iy) \<Rightarrow>
          (let grid_x = map (\<lambda>i. real_of_int i * px + x_off) ix;
               grid_y = map (\<lambda>j. real_of_int j * py + y_off) iy
           in Inr (meshgrid_xy grid_x grid_y)))"

text \<open>Lines 68-70: stage 1, the coarse prune at radius \<open>R - half_diag\<close>.\<close>

definition coarse_prune :: "Die \<Rightarrow> real \<Rightarrow> point list \<Rightarrow> point list" where
  "coarse_prune die R centres =
     (let half_diag = 0.5 * hypot (width die) (height die);
          mask_centre = within_circle centres (R - half_diag) tol_default
      in mask_select centres mask_centre)"

text \<open>Line 75, one row of \<^verbatim>\<open>corners_all\<close>: the four absolute corners of the die
  centred at \<open>c\<close>.\<close>

definition corners_at :: "point list \<Rightarrow> point \<Rightarrow> point list" where
  "corners_at corners0 c = map (\<lambda>k. (fst c + fst k, snd c + snd k)) corners0"

text \<open>Lines 74-79: stage 2, the exact check of all four corners at radius \<open>R\<close>.\<close>

definition exact_check :: "Die \<Rightarrow> real \<Rightarrow> point list \<Rightarrow> point list" where
  "exact_check die R centres =
     (let corners0 = corners_local (width die) (height die);
          corners_all = map (corners_at corners0) centres;
          mask_circle =
            map (list_all id)
              (reshape_rows 4 (within_circle (concat corners_all) R tol_default))
      in mask_select centres mask_circle)"

definition count_with_offset_no_rotation ::
  "Wafer \<Rightarrow> Die \<Rightarrow> real \<Rightarrow> real \<Rightarrow> error + PlacementResult" where
  "count_with_offset_no_rotation wafer die x_off y_off =
     (let R = usable_radius wafer;
          px = width die + scribe die;
          py = height die + scribe die
      in case lattice_centres R px py x_off y_off of
           Inl e \<Rightarrow> Inl e
         | Inr centres0 \<Rightarrow>
             (let centres = coarse_prune die R centres0
              in if centres = []
                 then Inr \<lparr>dpw = 0, angle_deg = 0, offset = (x_off, y_off), positions = []\<rparr>
                 else (let good = exact_check die R centres
                       in Inr \<lparr>dpw = int (length good), angle_deg = 0,
                                offset = (x_off, y_off), positions = good\<rparr>)))"

subsection \<open>Three fixed offsets (backup.py, lines 95-122)\<close>

text \<open>Python's \<^verbatim>\<open>max(xs, key=f)\<close> on a non-empty list: the running best is replaced
  only by a strictly larger key, so the first maximal element wins.\<close>

fun max_key_from :: "('a \<Rightarrow> int) \<Rightarrow> 'a \<Rightarrow> 'a list \<Rightarrow> 'a" where
  "max_key_from key b [] = b"
| "max_key_from key b (x # xs) = max_key_from key (if key b < key x then x else b) xs"

definition optimise_three_fixed_offsets :: "Wafer \<Rightarrow> Die \<Rightarrow> error + ThreeRunSummary" where
  "optimise_three_fixed_offsets wafer die =
     (let px = width die + scribe die;
          py = height die + scribe die
      in case count_with_offset_no_rotation wafer die 0 0 of
           Inl e \<Rightarrow> Inl e
         | Inr r1 \<Rightarrow>
        (case count_with_offset_no_rotation wafer die (0.5 * px) 0 of
           Inl e \<Rightarrow> Inl e
         | Inr r2x \<Rightarrow>
        (case count_with_offset_no_rotation wafer die 0 (0.5 * py) of
           Inl e \<Rightarrow> Inl e
         | Inr r2y \<Rightarrow>
        (let (r2, note2) = (if dpw r2y \<le> dpw r2x then (r2x, ''x'') else (r2y, ''y''))
         in case count_with_offset_no_rotation wafer die (0.5 * px) (0.5 * py) of
              Inl e \<Rightarrow> Inl e
            | Inr r3 \<Rightarrow>
                (let best = max_key_from dpw r1 [r2, r3]
                 in Inr \<lparr>best = best,
                          per_iter = [(''iter1'', r1), (''iter2'', r2), (''iter3'', r3)],
                          note_iter2 = note2\<rparr>)))))"

subsection \<open>The public call (dieopt/api.py)\<close>

text \<open>\<^verbatim>\<open>float(x or 0.0)\<close> for an optional float: \<^verbatim>\<open>None\<close> and \<^verbatim>\<open>0.0\<close> are both
  falsy and give \<open>0\<close>.\<close>

definition or_zero :: "real option \<Rightarrow> real" where
  "or_zero x = (case x of None \<Rightarrow> 0 | Some v \<Rightarrow> (if v = 0 then 0 else v))"

definition coerce_wafer :: "Wafer option \<Rightarrow> real option \<Rightarrow> real option \<Rightarrow> error + Wafer" where
  "coerce_wafer wafer wafer_diameter edge_excl =
     (case wafer of
        Some w \<Rightarrow> Inr w
      | None \<Rightarrow>
          (case wafer_diameter of
             None \<Rightarrow> Inl (DieOptError ''Provide wafer or wafer_diameter.'')
           | Some wd \<Rightarrow> Inr \<lparr>diameter = wd, edge_exclusion = or_zero edge_excl\<rparr>))"

definition coerce_die ::
  "Die option \<Rightarrow> real option \<Rightarrow> real option \<Rightarrow> real option \<Rightarrow> error + Die" where
  "coerce_die die wid hgt scr =
     (case die of
        Some d \<Rightarrow> Inr d
      | None \<Rightarrow>
          (case (wid, hgt) of
             (Some wv, Some hv) \<Rightarrow> Inr \<lparr>width = wv, height = hv, scribe = or_zero scr\<rparr>
           | _ \<Rightarrow> Inl (DieOptError ''Provide die or width & height.'')))"

definition positions_to_tuples :: "point list \<Rightarrow> point list" where
  "positions_to_tuples arr = arr"

text \<open>The value returned by \<^verbatim>\<open>dieopt\<close>: a coordinate list for the modes
  \<^verbatim>\<open>best\<close> and \<^verbatim>\<open>iterN\<close>, a mapping (in insertion order) for \<^verbatim>\<open>all\<close>; the
  summary comes with it when \<^verbatim>\<open>return_summary\<close> is set.\<close>

datatype coords_out = Coords "point list" | CoordsByIter "(string \<times> point list) list"

text \<open>The drawing calls act on the Matplotlib axes only and are not modelled; the
  axes argument matters only through being present. The message of the
  unknown-mode error embeds the mode between quotes.

  \<^verbatim>\<open>api.py\<close> imports \<^verbatim>\<open>Wafer\<close>, \<^verbatim>\<open>Die\<close>, \<^verbatim>\<open>PlacementResult\<close> and
  \<^verbatim>\<open>ThreeRunSummary\<close> from \<^verbatim>\<open>dieopt/models.py\<close> and \<^verbatim>\<open>optimise_three_fixed_offsets\<close>
  from \<^verbatim>\<open>dieopt/algo.py\<close>; neither file is among the sources. The data classes and
  the function of the same names in \<^verbatim>\<open>backup.py\<close> stand for them.\<close>

definition dieopt ::
  "Wafer option \<Rightarrow> Die option \<Rightarrow> real option \<Rightarrow> real option \<Rightarrow> real option \<Rightarrow>
   real option \<Rightarrow> real option \<Rightarrow> string \<Rightarrow> bool \<Rightarrow> 'ax option \<Rightarrow> bool \<Rightarrow>
   error + (coords_out \<times> ThreeRunSummary option)" where
  "dieopt wafer die wafer_diameter edge_excl wid hgt scr mode draw ax return_summary =
     (case coerce_wafer wafer wafer_diameter edge_excl of
        Inl e \<Rightarrow> Inl e
      | Inr w \<Rightarrow>
     (case coerce_die die wid hgt scr of
        Inl e \<Rightarrow> Inl e
      | Inr d \<Rightarrow>
     (case optimise_three_fixed_offsets w d of
        Inl e \<Rightarrow> Inl e
      | Inr summary \<Rightarrow>
          if draw \<and> ax = None
          then Inl (DieOptError ''draw=True requires a Matplotlib Axes via ax=...'')
          else (let ret = (\<lambda>out. Inr (out, if return_summary then Some summary else None))
                in if mode = ''best''
                   then ret (Coords (positions_to_tuples (positions (best summary))))
                   else if mode \<in> set [''iter1'', ''iter2'', ''iter3'']
                   then (case map_of (per_iter summary) mode of
                           Some res \<Rightarrow> ret (Coords (positions_to_tuples (positions res)))
                         | None \<Rightarrow> Inl (KeyError mode))
                   else if mode = ''all''
                   then ret (CoordsByIter
                          (map (\<lambda>(k, v). (k, positions_to_tuples (positions v)))
                             (per_iter summary)))
                   else Inl (DieOptError (''Unknown mode: '' @ [CHR 0x27] @ mode @ [CHR 0x27]))))))"


subsection \<open>Single entries of the two masks\<close>

text \<open>One entry of the mask computed by \<open>within_circle\<close>.\<close>

definition in_circle :: "real \<Rightarrow> real \<Rightarrow> point \<Rightarrow> bool" where
  "in_circle R tol p = (fst p * fst p + snd p * snd p \<le> (R * R) * (1 + tol))"

text \<open>One entry of \<^verbatim>\<open>mask_circle\<close>: all four corners of the die centred at \<open>c\<close>
  pass \<open>within_circle\<close> at radius \<open>R\<close> with the default tolerance.\<close>

definition die_fits :: "Die \<Rightarrow> real \<Rightarrow> point \<Rightarrow> bool" where
  "die_fits die R c =
     list_all id
       (within_circle (corners_at (corners_local (width die) (height die)) c) R tol_default)"

subsection \<open>Predicates on the outcome of the public call\<close>

text \<open>The outcome is one of the two configuration errors raised by the coercion
  functions.\<close>

definition config_error :: "error + 'a \<Rightarrow> bool" where
  "config_error res =
     (res = Inl (DieOptError ''Provide wafer or wafer_diameter.'')
      \<or> res = Inl (DieOptError ''Provide die or width & height.''))"

text \<open>The condition in the words of the specification: the wafer is given as a
  structured value or by its complete scalar set (diameter and edge exclusion), and
  the die is given as a structured value or by its complete scalar set (width, height
  and scribe).\<close>

definition spec_arguments_supplied ::
  "Wafer option \<Rightarrow> Die option \<Rightarrow> real option \<Rightarrow> real option \<Rightarrow> real option \<Rightarrow>
   real option \<Rightarrow> real option \<Rightarrow> bool" where
  "spec_arguments_supplied wafer die wafer_diameter edge_excl wid hgt scr =
     ((case wafer of
         Some _ \<Rightarrow> True
       | None \<Rightarrow> (case (wafer_diameter, edge_excl) of (Some _, Some _) \<Rightarrow> True | _ \<Rightarrow> False))
      \<and> (case die of
            Some _ \<Rightarrow> True
          | None \<Rightarrow> (case (wid, hgt, scr) of (Some _, Some _, Some _) \<Rightarrow> True | _ \<Rightarrow> False)))"

section \<open>Properties\<close>

subsection \<open>The masks as filters\<close>

lemma mask_select_map: "mask_select xs (map P xs) = filter P xs"
  by (induction xs) (auto simp: mask_select_def)

lemma within_circle_map: "within_circle ps R tol = map (in_circle R tol) ps"
  by (simp add: within_circle_def in_circle_def)

lemma reshape_rows_concat:
  "0 < k \<Longrightarrow> (\<And>xs. xs \<in> set xss \<Longrightarrow> length xs = k) \<Longrightarrow> reshape_rows k (concat xss) = xss"
proof (induction xss)
  case Nil
  then show ?case by (simp add: reshape_rows.simps)
next
  case (Cons xs xss)
  have len: "length xs = k" using Cons.prems(2) by simp
  have ne: "xs @ concat xss \<noteq> []" using len Cons.prems(1) by auto
  have "reshape_rows k (concat (xs # xss)) = take k (xs @ concat xss) # reshape_rows k (drop k (xs @ concat xss))"
    using ne Cons.prems(1) by (subst reshape_rows.simps) simp
  also have "\<dots> = xs # reshape_rows k (concat xss)" using len by simp
  also have "\<dots> = xs # xss" using Cons.IH[OF Cons.prems(1)] Cons.prems(2) by simp
  finally show ?case .
qed

lemma within_circle_concat:
  "within_circle (concat xss) R tol = concat (map (\<lambda>xs. within_circle xs R tol) xss)"
  by (simp add: within_circle_def map_concat)

lemma coarse_prune_filter:
  "coarse_prune die R cs =
     filter (in_circle (R - 0.5 * hypot (width die) (height die)) tol_default) cs"
  by (simp add: coarse_prune_def Let_def within_circle_map mask_select_map)

lemma exact_check_filter: "exact_check die R cs = filter (die_fits die R) cs"
proof -
  let ?c0 = "corners_local (width die) (height die)"
  let ?rows = "map (\<lambda>c. within_circle (corners_at ?c0 c) R tol_default) cs"
  have "within_circle (concat (map (corners_at ?c0) cs)) R tol_default = concat ?rows"
    by (simp add: within_circle_concat comp_def)
  moreover have "reshape_rows 4 (concat ?rows) = ?rows"
    by (rule reshape_rows_concat)
       (auto simp: within_circle_def corners_at_def corners_local_def Let_def)
  ultimately have "map (list_all id) (reshape_rows 4 (within_circle (concat (map (corners_at ?c0) cs)) R tol_default))
      = map (die_fits die R) cs"
    by (simp add: die_fits_def comp_def)
  then show ?thesis
    by (simp add: exact_check_def Let_def mask_select_map)
qed


lemma grid_bounds_Inr:
  "px \<noteq> 0 \<Longrightarrow> py \<noteq> 0 \<Longrightarrow>
   grid_bounds R px py =
     Inr ([- \<lceil>(R + max px py) / px\<rceil>..\<lceil>(R + max px py) / px\<rceil>],
          [- \<lceil>(R + max px py) / py\<rceil>..\<lceil>(R + max px py) / py\<rceil>])"
  by (simp add: grid_bounds_def Let_def)

lemma grid_bounds_Inl:
  "px = 0 \<or> py = 0 \<Longrightarrow> grid_bounds R px py = Inl ZeroDivisionError"
  by (auto simp: grid_bounds_def Let_def)

lemma lattice_centres_Inr:
  "px \<noteq> 0 \<Longrightarrow> py \<noteq> 0 \<Longrightarrow>
   lattice_centres R px py x_off y_off =
     Inr (meshgrid_xy
            (map (\<lambda>i. real_of_int i * px + x_off)
               [- \<lceil>(R + max px py) / px\<rceil>..\<lceil>(R + max px py) / px\<rceil>])
            (map (\<lambda>j. real_of_int j * py + y_off)
               [- \<lceil>(R + max px py) / py\<rceil>..\<lceil>(R + max px py) / py\<rceil>]))"
  by (simp add: lattice_centres_def grid_bounds_Inr)

lemma lattice_centres_total:
  "px \<noteq> 0 \<Longrightarrow> py \<noteq> 0 \<Longrightarrow> \<exists>cs. lattice_centres R px py x_off y_off = Inr cs"
  by (simp add: lattice_centres_Inr)

lemma lattice_centres_Inl:
  "px = 0 \<or> py = 0 \<Longrightarrow> lattice_centres R px py x_off y_off = Inl ZeroDivisionError"
  by (simp add: lattice_centres_def grid_bounds_Inl)

lemma count_Inr:
  assumes "lattice_centres (usable_radius w) (width d + scribe d) (height d + scribe d) x y = Inr cs"
  shows "count_with_offset_no_rotation w d x y =
           Inr \<lparr>dpw = int (length (exact_check d (usable_radius w) (coarse_prune d (usable_radius w) cs))),
                angle_deg = 0, offset = (x, y),
                positions = exact_check d (usable_radius w) (coarse_prune d (usable_radius w) cs)\<rparr>"
  using assms by (simp add: count_with_offset_no_rotation_def Let_def exact_check_filter)

lemma count_Inl:
  "width d + scribe d = 0 \<or> height d + scribe d = 0 \<Longrightarrow>
   count_with_offset_no_rotation w d x y = Inl ZeroDivisionError"
  by (simp add: count_with_offset_no_rotation_def Let_def lattice_centres_Inl)

lemma count_total:
  assumes "width d + scribe d \<noteq> 0" "height d + scribe d \<noteq> 0"
  shows "\<exists>r. count_with_offset_no_rotation w d x y = Inr r"
  using lattice_centres_total[OF assms] count_Inr by metis

lemma count_offset:
  "count_with_offset_no_rotation w d x y = Inr r \<Longrightarrow> offset r = (x, y)"
  by (auto simp: count_with_offset_no_rotation_def Let_def split: sum.splits if_splits)

lemma count_angle:
  "count_with_offset_no_rotation w d x y = Inr r \<Longrightarrow> angle_deg r = 0"
  by (auto simp: count_with_offset_no_rotation_def Let_def split: sum.splits if_splits)

lemma count_dpw_length:
  "count_with_offset_no_rotation w d x y = Inr r \<Longrightarrow> dpw r = int (length (positions r))"
  by (auto simp: count_with_offset_no_rotation_def Let_def split: sum.splits if_splits)

lemma count_positions:
  "count_with_offset_no_rotation w d x y = Inr r \<Longrightarrow>
   lattice_centres (usable_radius w) (width d + scribe d) (height d + scribe d) x y = Inr cs \<Longrightarrow>
   positions r = filter (die_fits d (usable_radius w))
                   (filter (in_circle (usable_radius w - 0.5 * hypot (width d) (height d)) tol_default) cs)"
  by (auto simp: count_Inr exact_check_filter coarse_prune_filter)

lemma die_fits_iff:
  "die_fits d R p \<longleftrightarrow>
     (\<forall>k \<in> set (corners_local (width d) (height d)).
        (fst p + fst k) * (fst p + fst k) + (snd p + snd k) * (snd p + snd k)
          \<le> (R * R) * (1 + tol_default))"
  by (simp add: die_fits_def within_circle_def corners_at_def list_all_iff)

lemma count_positions_fit:
  assumes "count_with_offset_no_rotation w d x y = Inr r" and "p \<in> set (positions r)"
  shows "die_fits d (usable_radius w) p"
  using assms
  by (auto simp: count_with_offset_no_rotation_def Let_def exact_check_filter
           split: sum.splits if_splits)

lemma max_key_from_two:
  "max_key_from key a [b, c] =
     (if key b \<le> key a \<and> key c \<le> key a then a else if key c \<le> key b then b else c)"
  by auto

lemma optimise_Inr:
  assumes "count_with_offset_no_rotation w d 0 0 = Inr r1"
    and "count_with_offset_no_rotation w d (0.5 * (width d + scribe d)) 0 = Inr r2x"
    and "count_with_offset_no_rotation w d 0 (0.5 * (height d + scribe d)) = Inr r2y"
    and "count_with_offset_no_rotation w d (0.5 * (width d + scribe d)) (0.5 * (height d + scribe d)) = Inr r3"
  shows "optimise_three_fixed_offsets w d =
           Inr \<lparr>best = max_key_from dpw r1 [if dpw r2y \<le> dpw r2x then r2x else r2y, r3],
                per_iter = [(''iter1'', r1),
                            (''iter2'', if dpw r2y \<le> dpw r2x then r2x else r2y),
                            (''iter3'', r3)],
                note_iter2 = (if dpw r2y \<le> dpw r2x then ''x'' else ''y'')\<rparr>"
  using assms by (simp add: optimise_three_fixed_offsets_def Let_def del: max_key_from.simps)

lemma optimise_Inl:
  "width d + scribe d = 0 \<or> height d + scribe d = 0 \<Longrightarrow>
   optimise_three_fixed_offsets w d = Inl ZeroDivisionError"
  by (simp add: optimise_three_fixed_offsets_def Let_def count_Inl)

subsection \<open>A worked example: a 3 x 4 die with scribe 1 on a wafer of diameter 6\<close>

lemma hypot_3_4: "hypot 3 4 = 5"
proof -
  have "sqrt (5 * 5) = \<bar>5::real\<bar>" by (rule real_sqrt_abs2)
  then show ?thesis by (simp add: hypot_def)
qed

lemma reshape_rows_4:
  "reshape_rows 4 (a # b # c # e # xs) = [a, b, c, e] # reshape_rows 4 xs"
  by (subst reshape_rows.simps) simp

lemma reshape_rows_Nil: "reshape_rows k [] = []"
  by (subst reshape_rows.simps) simp

lemmas count_eval =
  count_with_offset_no_rotation_def lattice_centres_def grid_bounds_def usable_radius_def
  Let_def meshgrid_xy_def coarse_prune_def exact_check_def within_circle_def mask_select_def
  tol_default_def hypot_3_4 corners_local_def corners_at_def reshape_rows_4 reshape_rows_Nil
  upto_rec1

lemma example_centre:
  "count_with_offset_no_rotation \<lparr>diameter = 6, edge_exclusion = 0\<rparr>
     \<lparr>width = 3, height = 4, scribe = 1\<rparr> 0 0
   = Inr \<lparr>dpw = 1, angle_deg = 0, offset = (0, 0), positions = [(0, 0)]\<rparr>"
  by (simp add: count_eval)

lemma example_half_x:
  "count_with_offset_no_rotation \<lparr>diameter = 6, edge_exclusion = 0\<rparr>
     \<lparr>width = 3, height = 4, scribe = 1\<rparr> 2 0
   = Inr \<lparr>dpw = 0, angle_deg = 0, offset = (2, 0), positions = []\<rparr>"
  by (simp add: count_eval)

lemma example_half_y:
  "count_with_offset_no_rotation \<lparr>diameter = 6, edge_exclusion = 0\<rparr>
     \<lparr>width = 3, height = 4, scribe = 1\<rparr> 0 (5 / 2)
   = Inr \<lparr>dpw = 0, angle_deg = 0, offset = (0, 5 / 2), positions = []\<rparr>"
  by (simp add: count_eval)

lemma example_half_xy:
  "count_with_offset_no_rotation \<lparr>diameter = 6, edge_exclusion = 0\<rparr>
     \<lparr>width = 3, height = 4, scribe = 1\<rparr> 2 (5 / 2)
   = Inr \<lparr>dpw = 0, angle_deg = 0, offset = (2, 5 / 2), positions = []\<rparr>"
  by (simp add: count_eval)

lemma example_optimise:
  "optimise_three_fixed_offsets \<lparr>diameter = 6, edge_exclusion = 0\<rparr>
     \<lparr>width = 3, height = 4, scribe = 1\<rparr>
   = Inr \<lparr>best = \<lparr>dpw = 1, angle_deg = 0, offset = (0, 0), positions = [(0, 0)]\<rparr>,
           per_iter = [(''iter1'', \<lparr>dpw = 1, angle_deg = 0, offset = (0, 0), positions = [(0, 0)]\<rparr>),
                       (''iter2'', \<lparr>dpw = 0, angle_deg = 0, offset = (2, 0), positions = []\<rparr>),
                       (''iter3'', \<lparr>dpw = 0, angle_deg = 0, offset = (2, 5 / 2), positions = []\<rparr>)],
           note_iter2 = ''x''\<rparr>"
  by (simp add: optimise_three_fixed_offsets_def Let_def example_centre example_half_x
        example_half_y example_half_xy)

subsection \<open>When the evaluation returns\<close>

lemma optimise_total:
  assumes "width d + scribe d \<noteq> 0" and "height d + scribe d \<noteq> 0"
  shows "\<exists>s. optimise_three_fixed_offsets w d = Inr s"
proof -
  obtain r1 where r1: "count_with_offset_no_rotation w d 0 0 = Inr r1"
    using count_total[OF assms] by blast
  obtain r2x where r2x: "count_with_offset_no_rotation w d (0.5 * (width d + scribe d)) 0 = Inr r2x"
    using count_total[OF assms] by blast
  obtain r2y where r2y: "count_with_offset_no_rotation w d 0 (0.5 * (height d + scribe d)) = Inr r2y"
    using count_total[OF assms] by blast
  obtain r3 where r3: "count_with_offset_no_rotation w d (0.5 * (width d + scribe d)) (0.5 * (height d + scribe d)) = Inr r3"
    using count_total[OF assms] by blast
  show ?thesis using optimise_Inr[OF r1 r2x r2y r3] by blast
qed

lemma count_dpw_when_returning:
  assumes "width d + scribe d \<noteq> 0" and "height d + scribe d \<noteq> 0"
  shows "\<exists>r cs. lattice_centres (usable_radius w) (width d + scribe d) (height d + scribe d) x y = Inr cs
           \<and> count_with_offset_no_rotation w d x y = Inr r
           \<and> dpw r = int (length (positions r))
           \<and> (coarse_prune d (usable_radius w) cs = [] \<longrightarrow> dpw r = 0 \<and> positions r = [])"
proof -
  obtain cs where cs: "lattice_centres (usable_radius w) (width d + scribe d) (height d + scribe d) x y = Inr cs"
    using lattice_centres_total[OF assms] by blast
  obtain r where r: "count_with_offset_no_rotation w d x y = Inr r"
    using count_total[OF assms] by blast
  have "dpw r = int (length (positions r))" by (rule count_dpw_length[OF r])
  moreover have "coarse_prune d (usable_radius w) cs = [] \<longrightarrow> dpw r = 0 \<and> positions r = []"
    using r cs by (auto simp: count_with_offset_no_rotation_def Let_def)
  ultimately show ?thesis using cs r by blast
qed

lemma count_positions_contained_when_returning:
  assumes "width d + scribe d \<noteq> 0" and "height d + scribe d \<noteq> 0"
  shows "\<exists>r. count_with_offset_no_rotation w d x_off y_off = Inr r
           \<and> (\<forall>p \<in> set (positions r).
                 list_all id
                   (within_circle (corners_at (corners_local (width d) (height d)) p)
                      (usable_radius w) tol_default)
                 \<and> (\<forall>k \<in> set (corners_local (width d) (height d)).
                       (fst p + fst k) * (fst p + fst k) + (snd p + snd k) * (snd p + snd k)
                         \<le> (usable_radius w * usable_radius w) * (1 + 1 / 10 ^ 9)))"
proof -
  obtain r where r: "count_with_offset_no_rotation w d x_off y_off = Inr r"
    using count_total[OF assms] by blast
  have fits: "die_fits d (usable_radius w) p" if "p \<in> set (positions r)" for p
    using count_positions_fit[OF r that] .
  have tol: "(1::real) / 10 ^ 9 = tol_default" by (simp add: tol_default_def)
  have "list_all id
          (within_circle (corners_at (corners_local (width d) (height d)) p)
             (usable_radius w) tol_default)
        \<and> (\<forall>k \<in> set (corners_local (width d) (height d)).
              (fst p + fst k) * (fst p + fst k) + (snd p + snd k) * (snd p + snd k)
                \<le> (usable_radius w * usable_radius w) * (1 + 1 / 10 ^ 9))"
    if "p \<in> set (positions r)" for p
    unfolding tol using fits[OF that] die_fits_iff[of d "usable_radius w" p]
    by (simp add: die_fits_def)
  with r show ?thesis by blast
qed

lemma optimise_best_when_returning:
  assumes "width d + scribe d \<noteq> 0" and "height d + scribe d \<noteq> 0"
  shows "\<exists>s r1 r2 r3.
           optimise_three_fixed_offsets w d = Inr s
         \<and> per_iter s = [(''iter1'', r1), (''iter2'', r2), (''iter3'', r3)]
         \<and> count_with_offset_no_rotation w d 0 0 = Inr r1
         \<and> count_with_offset_no_rotation w d
               (0.5 * (width d + scribe d)) (0.5 * (height d + scribe d)) = Inr r3
         \<and> dpw r1 \<le> dpw (best s) \<and> dpw r2 \<le> dpw (best s) \<and> dpw r3 \<le> dpw (best s)
         \<and> dpw (best s) = max (dpw r1) (max (dpw r2) (dpw r3))
         \<and> best s = (if dpw r2 \<le> dpw r1 \<and> dpw r3 \<le> dpw r1 then r1
                      else if dpw r3 \<le> dpw r2 then r2 else r3)"
proof -
  obtain r1 where r1: "count_with_offset_no_rotation w d 0 0 = Inr r1"
    using count_total[OF assms] by blast
  obtain r2x where r2x: "count_with_offset_no_rotation w d (0.5 * (width d + scribe d)) 0 = Inr r2x"
    using count_total[OF assms] by blast
  obtain r2y where r2y: "count_with_offset_no_rotation w d 0 (0.5 * (height d + scribe d)) = Inr r2y"
    using count_total[OF assms] by blast
  obtain r3 where r3: "count_with_offset_no_rotation w d (0.5 * (width d + scribe d)) (0.5 * (height d + scribe d)) = Inr r3"
    using count_total[OF assms] by blast
  define r2 where "r2 = (if dpw r2y \<le> dpw r2x then r2x else r2y)"
  define s where "s = \<lparr>best = max_key_from dpw r1 [r2, r3],
                per_iter = [(''iter1'', r1), (''iter2'', r2), (''iter3'', r3)],
                note_iter2 = (if dpw r2y \<le> dpw r2x then ''x'' else ''y'')\<rparr>"
  have opt: "optimise_three_fixed_offsets w d = Inr s"
    unfolding s_def r2_def by (rule optimise_Inr[OF r1 r2x r2y r3])
  have b: "best s = (if dpw r2 \<le> dpw r1 \<and> dpw r3 \<le> dpw r1 then r1
                      else if dpw r3 \<le> dpw r2 then r2 else r3)"
    by (simp add: s_def max_key_from_two del: max_key_from.simps)
  have p: "per_iter s = [(''iter1'', r1), (''iter2'', r2), (''iter3'', r3)]"
    by (simp add: s_def)
  have m: "dpw (best s) = max (dpw r1) (max (dpw r2) (dpw r3))"
    unfolding b by (simp add: max_def)
  have "dpw r1 \<le> dpw (best s) \<and> dpw r2 \<le> dpw (best s) \<and> dpw r3 \<le> dpw (best s)"
    unfolding m by (simp add: le_max_iff_disj)
  with opt p m b r1 r3 show ?thesis by blast
qed

lemma optimise_round_trip_when_returning:
  assumes "width d + scribe d \<noteq> 0" and "height d + scribe d \<noteq> 0"
  shows "\<exists>s. optimise_three_fixed_offsets w d = Inr s
           \<and> count_with_offset_no_rotation w d (fst (offset (best s))) (snd (offset (best s)))
               = Inr (best s)"
proof -
  obtain r1 where r1: "count_with_offset_no_rotation w d 0 0 = Inr r1"
    using count_total[OF assms] by blast
  obtain r2x where r2x: "count_with_offset_no_rotation w d (0.5 * (width d + scribe d)) 0 = Inr r2x"
    using count_total[OF assms] by blast
  obtain r2y where r2y: "count_with_offset_no_rotation w d 0 (0.5 * (height d + scribe d)) = Inr r2y"
    using count_total[OF assms] by blast
  obtain r3 where r3: "count_with_offset_no_rotation w d (0.5 * (width d + scribe d)) (0.5 * (height d + scribe d)) = Inr r3"
    using count_total[OF assms] by blast
  define r2 where "r2 = (if dpw r2y \<le> dpw r2x then r2x else r2y)"
  define s where "s = \<lparr>best = max_key_from dpw r1 [r2, r3],
                per_iter = [(''iter1'', r1), (''iter2'', r2), (''iter3'', r3)],
                note_iter2 = (if dpw r2y \<le> dpw r2x then ''x'' else ''y'')\<rparr>"
  have opt: "optimise_three_fixed_offsets w d = Inr s"
    unfolding s_def r2_def by (rule optimise_Inr[OF r1 r2x r2y r3])
  have "best s \<in> {r1, r2x, r2y, r3}"
    by (simp add: s_def r2_def max_key_from_two del: max_key_from.simps)
  then consider "best s = r1" | "best s = r2x" | "best s = r2y" | "best s = r3" by blast
  then have "count_with_offset_no_rotation w d (fst (offset (best s))) (snd (offset (best s)))
               = Inr (best s)"
  proof cases
    case 1 then show ?thesis using r1 count_offset[OF r1] by simp
  next
    case 2 then show ?thesis using r2x count_offset[OF r2x] by simp
  next
    case 3 then show ?thesis using r2y count_offset[OF r2y] by simp
  next
    case 4 then show ?thesis using r3 count_offset[OF r3] by simp
  qed
  with opt show ?thesis by blast
qed

section \<open>The claims\<close>

text \<open>
  Claim C1. For every wafer and die, a summary returned by
  \<open>optimise_three_fixed_offsets\<close> has a \<open>best\<close> whose \<open>dpw\<close> is at least the \<open>dpw\<close> of
  each of \<^verbatim>\<open>iter1\<close>, \<^verbatim>\<open>iter2\<close>, \<^verbatim>\<open>iter3\<close> and equals their maximum, and \<open>best\<close> is
  the result of the earliest iteration that attains the maximum. A summary is returned
  exactly when both pitches are non-zero; with a zero pitch the call raises
  \<^verbatim>\<open>ZeroDivisionError\<close>.
\<close>

theorem best_is_first_maximum:
  "(\<forall>s. optimise_three_fixed_offsets w d = Inr s \<longrightarrow>
      (\<exists>r1 r2 r3.
           per_iter s = [(''iter1'', r1), (''iter2'', r2), (''iter3'', r3)]
         \<and> count_with_offset_no_rotation w d 0 0 = Inr r1
         \<and> count_with_offset_no_rotation w d
               (0.5 * (width d + scribe d)) (0.5 * (height d + scribe d)) = Inr r3
         \<and> dpw r1 \<le> dpw (best s) \<and> dpw r2 \<le> dpw (best s) \<and> dpw r3 \<le> dpw (best s)
         \<and> dpw (best s) = max (dpw r1) (max (dpw r2) (dpw r3))
         \<and> best s = (if dpw r2 \<le> dpw r1 \<and> dpw r3 \<le> dpw r1 then r1
                      else if dpw r3 \<le> dpw r2 then r2 else r3)))
   \<and> (width d + scribe d \<noteq> 0 \<and> height d + scribe d \<noteq> 0 \<longrightarrow>
        (\<exists>s. optimise_three_fixed_offsets w d = Inr s))
   \<and> (width d + scribe d = 0 \<or> height d + scribe d = 0 \<longrightarrow>
        optimise_three_fixed_offsets w d = Inl ZeroDivisionError)"
proof (intro conjI allI impI)
  fix s assume s: "optimise_three_fixed_offsets w d = Inr s"
  have ne: "width d + scribe d \<noteq> 0" "height d + scribe d \<noteq> 0"
    using s optimise_Inl[of d w] by auto
  show "\<exists>r1 r2 r3.
           per_iter s = [(''iter1'', r1), (''iter2'', r2), (''iter3'', r3)]
         \<and> count_with_offset_no_rotation w d 0 0 = Inr r1
         \<and> count_with_offset_no_rotation w d
               (0.5 * (width d + scribe d)) (0.5 * (height d + scribe d)) = Inr r3
         \<and> dpw r1 \<le> dpw (best s) \<and> dpw r2 \<le> dpw (best s) \<and> dpw r3 \<le> dpw (best s)
         \<and> dpw (best s) = max (dpw r1) (max (dpw r2) (dpw r3))
         \<and> best s = (if dpw r2 \<le> dpw r1 \<and> dpw r3 \<le> dpw r1 then r1
                      else if dpw r3 \<le> dpw r2 then r2 else r3)"
    using optimise_best_when_returning[OF ne, of w] s by auto
next
  assume "width d + scribe d \<noteq> 0 \<and> height d + scribe d \<noteq> 0"
  then show "\<exists>s. optimise_three_fixed_offsets w d = Inr s"
    using optimise_total[of d w] by blast
next
  assume "width d + scribe d = 0 \<or> height d + scribe d = 0"
  then show "optimise_three_fixed_offsets w d = Inl ZeroDivisionError"
    by (rule optimise_Inl)
qed

theorem best_is_first_maximum_witness:
  "(3::real) + 1 \<noteq> 0 \<and> (4::real) + 1 \<noteq> 0 \<and>
   (\<exists>s. optimise_three_fixed_offsets \<lparr>diameter = 6, edge_exclusion = 0\<rparr>
            \<lparr>width = 3, height = 4, scribe = 1\<rparr> = Inr s
        \<and> dpw (best s) = 1 \<and> map (\<lambda>(k, r). dpw r) (per_iter s) = [1, 0, 0]
        \<and> best s = snd (hd (per_iter s)))"
  using best_is_first_maximum
          [where d = "\<lparr>width = 3, height = 4, scribe = 1\<rparr>" and w = "\<lparr>diameter = 6, edge_exclusion = 0\<rparr>"]
  by (simp add: example_optimise)

text \<open>
  Claim C2. For every wafer, die and offset, every position of a result returned by
  the placement evaluation has all four absolute corners (the position plus the local
  corner offsets of the die) passing the containment test at the usable radius:
  squared distance from the origin at most \<open>R\<^sup>2 * (1 + 1 / 10 ^ 9)\<close>. A result is
  returned exactly when both pitches are non-zero; with a zero pitch the call raises
  \<^verbatim>\<open>ZeroDivisionError\<close>.
\<close>

theorem positions_pass_exact_containment:
  "(\<forall>r. count_with_offset_no_rotation w d x_off y_off = Inr r \<longrightarrow>
      (\<forall>p \<in> set (positions r).
         list_all id
           (within_circle (corners_at (corners_local (width d) (height d)) p)
              (usable_radius w) tol_default)
         \<and> (\<forall>k \<in> set (corners_local (width d) (height d)).
               (fst p + fst k) * (fst p + fst k) + (snd p + snd k) * (snd p + snd k)
                 \<le> (usable_radius w * usable_radius w) * (1 + 1 / 10 ^ 9))))
   \<and> (width d + scribe d \<noteq> 0 \<and> height d + scribe d \<noteq> 0 \<longrightarrow>
        (\<exists>r. count_with_offset_no_rotation w d x_off y_off = Inr r))
   \<and> (width d + scribe d = 0 \<or> height d + scribe d = 0 \<longrightarrow>
        count_with_offset_no_rotation w d x_off y_off = Inl ZeroDivisionError)"
proof (intro conjI allI impI)
  fix r assume r: "count_with_offset_no_rotation w d x_off y_off = Inr r"
  have ne: "width d + scribe d \<noteq> 0" "height d + scribe d \<noteq> 0"
    using r count_Inl[of d w x_off y_off] by auto
  show "\<forall>p \<in> set (positions r).
         list_all id
           (within_circle (corners_at (corners_local (width d) (height d)) p)
              (usable_radius w) tol_default)
         \<and> (\<forall>k \<in> set (corners_local (width d) (height d)).
               (fst p + fst k) * (fst p + fst k) + (snd p + snd k) * (snd p + snd k)
                 \<le> (usable_radius w * usable_radius w) * (1 + 1 / 10 ^ 9))"
    using count_positions_contained_when_returning[OF ne, of w x_off y_off] r by auto
next
  assume "width d + scribe d \<noteq> 0 \<and> height d + scribe d \<noteq> 0"
  then show "\<exists>r. count_with_offset_no_rotation w d x_off y_off = Inr r"
    using count_total[of d w x_off y_off] by blast
next
  assume "width d + scribe d = 0 \<or> height d + scribe d = 0"
  then show "count_with_offset_no_rotation w d x_off y_off = Inl ZeroDivisionError"
    by (rule count_Inl)
qed

theorem positions_pass_exact_containment_witness:
  "(3::real) + 1 \<noteq> 0 \<and> (4::real) + 1 \<noteq> 0 \<and>
   (\<exists>r. count_with_offset_no_rotation \<lparr>diameter = 6, edge_exclusion = 0\<rparr>
            \<lparr>width = 3, height = 4, scribe = 1\<rparr> 0 0 = Inr r
        \<and> positions r = [(0, 0)]
        \<and> list_all id (within_circle (corners_at (corners_local 3 4) (0, 0)) 3 tol_default))"
  using positions_pass_exact_containment
          [where d = "\<lparr>width = 3, height = 4, scribe = 1\<rparr>" and w = "\<lparr>diameter = 6, edge_exclusion = 0\<rparr>"
             and x_off = 0 and y_off = 0]
  by (simp add: example_centre usable_radius_def)

text \<open>
  Claim C6. For every wafer, die and offset, a result returned by the placement
  evaluation has \<open>dpw\<close> equal to the number of entries of \<open>positions\<close>; when the coarse
  prune leaves nothing (the short-circuit branch) the result has \<open>dpw = 0\<close> and no
  positions. A result is returned exactly when both pitches are non-zero; with a zero
  pitch the call raises \<^verbatim>\<open>ZeroDivisionError\<close>.
\<close>

theorem dpw_equals_number_of_positions:
  "(\<forall>r. count_with_offset_no_rotation w d x y = Inr r \<longrightarrow>
      dpw r = int (length (positions r))
      \<and> (\<forall>cs. lattice_centres (usable_radius w) (width d + scribe d) (height d + scribe d) x y
                 = Inr cs
               \<and> coarse_prune d (usable_radius w) cs = []
             \<longrightarrow> dpw r = 0 \<and> positions r = []))
   \<and> (width d + scribe d \<noteq> 0 \<and> height d + scribe d \<noteq> 0 \<longrightarrow>
        (\<exists>r. count_with_offset_no_rotation w d x y = Inr r))
   \<and> (width d + scribe d = 0 \<or> height d + scribe d = 0 \<longrightarrow>
        count_with_offset_no_rotation w d x y = Inl ZeroDivisionError)"
proof (intro conjI)
  show "\<forall>r. count_with_offset_no_rotation w d x y = Inr r \<longrightarrow>
      dpw r = int (length (positions r))
      \<and> (\<forall>cs. lattice_centres (usable_radius w) (width d + scribe d) (height d + scribe d) x y
                 = Inr cs
               \<and> coarse_prune d (usable_radius w) cs = []
             \<longrightarrow> dpw r = 0 \<and> positions r = [])"
  proof (intro allI impI)
    fix r assume r: "count_with_offset_no_rotation w d x y = Inr r"
    have ne: "width d + scribe d \<noteq> 0" "height d + scribe d \<noteq> 0"
      using r count_Inl[of d w x y] by auto
    have "dpw r = int (length (positions r))"
      by (rule count_dpw_length[OF r])
    moreover have "\<forall>cs. lattice_centres (usable_radius w) (width d + scribe d) (height d + scribe d) x y
                 = Inr cs
               \<and> coarse_prune d (usable_radius w) cs = []
             \<longrightarrow> dpw r = 0 \<and> positions r = []"
      using count_dpw_when_returning[OF ne, of w x y] r by auto
    ultimately show "dpw r = int (length (positions r))
      \<and> (\<forall>cs. lattice_centres (usable_radius w) (width d + scribe d) (height d + scribe d) x y
                 = Inr cs
               \<and> coarse_prune d (usable_radius w) cs = []
             \<longrightarrow> dpw r = 0 \<and> positions r = [])"
      by blast
  qed
next
  show "width d + scribe d \<noteq> 0 \<and> height d + scribe d \<noteq> 0 \<longrightarrow>
        (\<exists>r. count_with_offset_no_rotation w d x y = Inr r)"
    using count_total[of d w x y] by blast
next
  show "width d + scribe d = 0 \<or> height d + scribe d = 0 \<longrightarrow>
        count_with_offset_no_rotation w d x y = Inl ZeroDivisionError"
    using count_Inl[of d w x y] by blast
qed

theorem dpw_equals_number_of_positions_witness:
  "(3::real) + 1 \<noteq> 0 \<and> (4::real) + 1 \<noteq> 0 \<and>
   (\<exists>r. count_with_offset_no_rotation \<lparr>diameter = 6, edge_exclusion = 0\<rparr>
          \<lparr>width = 3, height = 4, scribe = 1\<rparr> 0 0 = Inr r
        \<and> dpw r = int (length (positions r)))"
  using dpw_equals_number_of_positions
          [where d = "\<lparr>width = 3, height = 4, scribe = 1\<rparr>" and w = "\<lparr>diameter = 6, edge_exclusion = 0\<rparr>"
             and x = 0 and y = 0]
  by auto

text \<open>
  Claim C8. For every wafer and die, when \<open>optimise_three_fixed_offsets\<close> returns a
  summary, evaluating the placement again at the offset of its \<open>best\<close> returns \<open>best\<close>
  itself: the same \<open>dpw\<close>, \<open>angle_deg\<close>, \<open>offset\<close> and \<open>positions\<close>. A summary is
  returned exactly when both pitches are non-zero; with a zero pitch the call raises
  \<^verbatim>\<open>ZeroDivisionError\<close>.
\<close>

theorem best_offset_round_trip:
  "(\<forall>s. optimise_three_fixed_offsets w d = Inr s \<longrightarrow>
      count_with_offset_no_rotation w d (fst (offset (best s))) (snd (offset (best s)))
        = Inr (best s))
   \<and> (width d + scribe d \<noteq> 0 \<and> height d + scribe d \<noteq> 0 \<longrightarrow>
        (\<exists>s. optimise_three_fixed_offsets w d = Inr s))
   \<and> (width d + scribe d = 0 \<or> height d + scribe d = 0 \<longrightarrow>
        optimise_three_fixed_offsets w d = Inl ZeroDivisionError)"
proof (intro conjI allI impI)
  fix s assume s: "optimise_three_fixed_offsets w d = Inr s"
  have ne: "width d + scribe d \<noteq> 0" "height d + scribe d \<noteq> 0"
    using s optimise_Inl[of d w] by auto
  show "count_with_offset_no_rotation w d (fst (offset (best s))) (snd (offset (best s)))
          = Inr (best s)"
    using optimise_round_trip_when_returning[OF ne, of w] s by auto
next
  assume "width d + scribe d \<noteq> 0 \<and> height d + scribe d \<noteq> 0"
  then show "\<exists>s. optimise_three_fixed_offsets w d = Inr s"
    using optimise_total[of d w] by blast
next
  assume "width d + scribe d = 0 \<or> height d + scribe d = 0"
  then show "optimise_three_fixed_offsets w d = Inl ZeroDivisionError"
    by (rule optimise_Inl)
qed

theorem best_offset_round_trip_witness:
  "(3::real) + 1 \<noteq> 0 \<and> (4::real) + 1 \<noteq> 0 \<and>
   (\<exists>s. optimise_three_fixed_offsets \<lparr>diameter = 6, edge_exclusion = 0\<rparr>
            \<lparr>width = 3, height = 4, scribe = 1\<rparr> = Inr s
        \<and> offset (best s) = (0, 0)
        \<and> count_with_offset_no_rotation \<lparr>diameter = 6, edge_exclusion = 0\<rparr>
            \<lparr>width = 3, height = 4, scribe = 1\<rparr> 0 0 = Inr (best s))"
  using best_offset_round_trip
          [where d = "\<lparr>width = 3, height = 4, scribe = 1\<rparr>" and w = "\<lparr>diameter = 6, edge_exclusion = 0\<rparr>"]
  by (simp add: example_optimise example_centre)

subsection \<open>The coarse prune against the exact check\<close>

lemma hypot_nonneg: "0 \<le> hypot x y"
  by (simp add: hypot_def)

lemma hypot_mult_self: "hypot x y * hypot x y = x * x + y * y"
proof -
  have "0 \<le> x * x + y * y" by simp
  then have "sqrt (x * x + y * y) * sqrt (x * x + y * y) = x * x + y * y"
    by (simp only: real_sqrt_mult_self abs_of_nonneg)
  then show ?thesis by (simp add: hypot_def)
qed

lemma half_hypot_sq: "(0.5 * hypot x y)\<^sup>2 = (x * x + y * y) / 4"
proof -
  have "(0.5 * hypot x y)\<^sup>2 = (hypot x y * hypot x y) / 4"
    by (simp add: power2_eq_square)
  then show ?thesis by (simp only: hypot_mult_self)
qed

lemma coarse_implies_corner:
  fixes a b kx ky R hd tol :: real
  assumes tol: "0 \<le> tol" and rad: "hd \<le> R" and hd: "0 \<le> hd"
    and k: "kx\<^sup>2 + ky\<^sup>2 = hd\<^sup>2"
    and c: "a * a + b * b \<le> ((R - hd) * (R - hd)) * (1 + tol)"
  shows "(a + kx) * (a + kx) + (b + ky) * (b + ky) \<le> (R * R) * (1 + tol)"
proof -
  define s where "s = sqrt (1 + tol)"
  have s1: "1 \<le> s" using tol by (simp add: s_def)
  have s2: "s\<^sup>2 = 1 + tol" using tol by (simp add: s_def)
  have e1: "((R - hd) * s)\<^sup>2 = ((R - hd) * (R - hd)) * (1 + tol)"
    unfolding power_mult_distrib s2 by (simp add: power2_eq_square)
  have "a\<^sup>2 + b\<^sup>2 \<le> ((R - hd) * s)\<^sup>2"
    unfolding e1 using c by (simp add: power2_eq_square)
  moreover have "0 \<le> (R - hd) * s" using rad s1 by simp
  ultimately have nc: "sqrt (a\<^sup>2 + b\<^sup>2) \<le> (R - hd) * s"
    by (simp add: real_le_lsqrt)
  have nk: "sqrt (kx\<^sup>2 + ky\<^sup>2) = hd"
    using k hd by (simp add: real_sqrt_unique)
  have "sqrt ((a + kx)\<^sup>2 + (b + ky)\<^sup>2) \<le> sqrt (a\<^sup>2 + b\<^sup>2) + sqrt (kx\<^sup>2 + ky\<^sup>2)"
    by (rule real_sqrt_sum_squares_triangle_ineq)
  also have "\<dots> \<le> (R - hd) * s + hd" using nc nk by simp
  also have "\<dots> \<le> (R - hd) * s + hd * s"
    using hd s1 by (simp add: mult_le_cancel_left1)
  also have "\<dots> = R * s" by (simp add: algebra_simps)
  finally have "sqrt ((a + kx)\<^sup>2 + (b + ky)\<^sup>2) \<le> R * s" .
  then have "(a + kx)\<^sup>2 + (b + ky)\<^sup>2 \<le> (R * s)\<^sup>2"
    by (rule sqrt_le_D)
  moreover have "(R * s)\<^sup>2 = (R * R) * (1 + tol)"
    unfolding power_mult_distrib s2 by (simp add: power2_eq_square)
  ultimately have "(a + kx)\<^sup>2 + (b + ky)\<^sup>2 \<le> (R * R) * (1 + tol)"
    by (simp only:)
  then show ?thesis
    by (simp add: power2_eq_square)
qed

lemma tol_default_nonneg: "0 \<le> tol_default"
  by (simp add: tol_default_def)

lemma corner_norm:
  assumes "k \<in> set (corners_local w h)"
  shows "(fst k)\<^sup>2 + (snd k)\<^sup>2 = (0.5 * hypot w h)\<^sup>2"
  using assms unfolding half_hypot_sq by (auto simp: corners_local_def Let_def power2_eq_square)

lemma coarse_implies_fits:
  assumes rad: "0.5 * hypot (width d) (height d) \<le> R"
    and c: "in_circle (R - 0.5 * hypot (width d) (height d)) tol_default c"
  shows "die_fits d R c"
  unfolding die_fits_iff
proof
  fix k assume k: "k \<in> set (corners_local (width d) (height d))"
  show "(fst c + fst k) * (fst c + fst k) + (snd c + snd k) * (snd c + snd k)
          \<le> (R * R) * (1 + tol_default)"
    by (rule coarse_implies_corner[OF tol_default_nonneg rad _ corner_norm[OF k]])
       (use c hypot_nonneg[of "width d" "height d"] in \<open>simp_all add: in_circle_def\<close>)
qed


lemma coarse_prune_all_fit:
  assumes "0.5 * hypot (width d) (height d) \<le> R"
  shows "filter (die_fits d R) (coarse_prune d R cs) = coarse_prune d R cs"
  unfolding coarse_prune_filter
  by (rule filter_True) (simp add: coarse_implies_fits[OF assms])

lemma hypot_30_40: "hypot 30 40 = 50"
proof -
  have "sqrt (50 * 50) = \<bar>50::real\<bar>" by (rule real_sqrt_abs2)
  then show ?thesis by (simp add: hypot_def)
qed

text \<open>
  Claim C4, as stated, fails when the usable radius is smaller than the half diagonal
  of the die: the coarse radius \<open>R - half_diag\<close> is then negative, the test compares
  squares, and a centre can pass the coarse prune although no corner is inside. On a
  wafer of diameter 10 with a 30 x 40 die the centre \<open>(0, 0)\<close> survives stage 1, all
  four of its corners fail the test of stage 2, and the evaluation returns \<open>dpw = 0\<close>.
\<close>

theorem coarse_prune_counterexample:
  "lattice_centres (usable_radius \<lparr>diameter = 10, edge_exclusion = 0\<rparr>) (30 + 0) (40 + 0) 0 0
     = Inr (meshgrid_xy [- 60, - 30, 0, 30, 60] [- 80, - 40, 0, 40, 80])
   \<and> coarse_prune \<lparr>width = 30, height = 40, scribe = 0\<rparr>
        (usable_radius \<lparr>diameter = 10, edge_exclusion = 0\<rparr>)
        (meshgrid_xy [- 60, - 30, 0, 30, 60] [- 80, - 40, 0, 40, 80]) = [(0, 0)]
   \<and> within_circle (corners_at (corners_local 30 40) (0, 0))
        (usable_radius \<lparr>diameter = 10, edge_exclusion = 0\<rparr>) tol_default
       = [False, False, False, False]
   \<and> count_with_offset_no_rotation \<lparr>diameter = 10, edge_exclusion = 0\<rparr>
        \<lparr>width = 30, height = 40, scribe = 0\<rparr> 0 0
       = Inr \<lparr>dpw = 0, angle_deg = 0, offset = (0, 0), positions = []\<rparr>"
  by (simp add: count_with_offset_no_rotation_def lattice_centres_def grid_bounds_def usable_radius_def
        Let_def meshgrid_xy_def coarse_prune_def exact_check_def within_circle_def mask_select_def
        tol_default_def hypot_30_40 corners_local_def corners_at_def reshape_rows_4 reshape_rows_Nil
        upto_rec1)

text \<open>
  Claim C4, amended. Whenever both pitches are non-zero and the usable radius is at
  least the half diagonal of the die, every candidate centre that passes the coarse
  prune has all four corners inside the usable circle (it passes the exact check), so
  stage 2 removes nothing and the positions are exactly the survivors of stage 1.
\<close>

theorem coarse_prune_guarantees_exact_check:
  assumes "width d + scribe d \<noteq> 0" and "height d + scribe d \<noteq> 0"
    and "0.5 * hypot (width d) (height d) \<le> usable_radius w"
  shows "\<exists>cs r.
           lattice_centres (usable_radius w) (width d + scribe d) (height d + scribe d) x_off y_off
             = Inr cs
         \<and> count_with_offset_no_rotation w d x_off y_off = Inr r
         \<and> (\<forall>c \<in> set (coarse_prune d (usable_radius w) cs).
               list_all id
                 (within_circle (corners_at (corners_local (width d) (height d)) c)
                    (usable_radius w) tol_default))
         \<and> exact_check d (usable_radius w) (coarse_prune d (usable_radius w) cs)
             = coarse_prune d (usable_radius w) cs
         \<and> positions r = coarse_prune d (usable_radius w) cs"
proof -
  let ?R = "usable_radius w"
  obtain cs where cs: "lattice_centres ?R (width d + scribe d) (height d + scribe d) x_off y_off = Inr cs"
    using lattice_centres_total[OF assms(1,2)] by blast
  define r where "r = \<lparr>dpw = int (length (exact_check d ?R (coarse_prune d ?R cs))),
                angle_deg = 0, offset = (x_off, y_off),
                positions = exact_check d ?R (coarse_prune d ?R cs)\<rparr>"
  have r: "count_with_offset_no_rotation w d x_off y_off = Inr r"
    unfolding r_def by (rule count_Inr[OF cs])
  have ex: "exact_check d ?R (coarse_prune d ?R cs) = coarse_prune d ?R cs"
    unfolding exact_check_filter by (rule coarse_prune_all_fit[OF assms(3)])
  have fit: "\<forall>c \<in> set (coarse_prune d ?R cs).
               list_all id
                 (within_circle (corners_at (corners_local (width d) (height d)) c) ?R tol_default)"
    using coarse_implies_fits[OF assms(3)]
    by (simp add: coarse_prune_filter die_fits_def)
  have "positions r = coarse_prune d ?R cs"
    by (simp add: r_def ex)
  with cs r ex fit show ?thesis by blast
qed

theorem coarse_prune_guarantees_exact_check_witness:
  "(3::real) + 1 \<noteq> 0 \<and> (4::real) + 1 \<noteq> 0
   \<and> 0.5 * hypot 3 4 \<le> usable_radius \<lparr>diameter = 6, edge_exclusion = 0\<rparr>
   \<and> (\<exists>cs r. lattice_centres 3 4 5 0 0 = Inr cs
         \<and> count_with_offset_no_rotation \<lparr>diameter = 6, edge_exclusion = 0\<rparr>
              \<lparr>width = 3, height = 4, scribe = 1\<rparr> 0 0 = Inr r
         \<and> positions r = [(0, 0)]
         \<and> coarse_prune \<lparr>width = 3, height = 4, scribe = 1\<rparr> 3 cs = [(0, 0)])"
  using coarse_prune_guarantees_exact_check
          [of "\<lparr>width = 3, height = 4, scribe = 1\<rparr>" "\<lparr>diameter = 6, edge_exclusion = 0\<rparr>" 0 0]
  by (auto simp: usable_radius_def hypot_3_4 example_centre)

subsection \<open>A die too large for the circle\<close>

lemma opposite_corners:
  fixes a b p q B :: real
  assumes "(a + p) * (a + p) + (b + q) * (b + q) \<le> B"
    and "(a + - p) * (a + - p) + (b + - q) * (b + - q) \<le> B"
  shows "p * p + q * q \<le> B"
proof -
  define X where "X = (a + p) * (a + p) + (b + q) * (b + q)"
  define Y where "Y = (a + - p) * (a + - p) + (b + - q) * (b + - q)"
  define S where "S = p * p + q * q"
  define T where "T = a * a + b * b"
  have "X + Y = 2 * S + 2 * T"
    by (simp add: X_def Y_def S_def T_def algebra_simps)
  moreover have "0 \<le> T" by (simp add: T_def)
  moreover have "X \<le> B" and "Y \<le> B" using assms by (simp_all add: X_def Y_def)
  ultimately have "S \<le> B" by linarith
  then show ?thesis by (simp add: S_def)
qed

lemma die_too_big:
  assumes big: "(R * R) * (1 + tol_default) < (width d * width d + height d * height d) / 4"
  shows "\<not> die_fits d R c"
proof
  assume fits: "die_fits d R c"
  let ?B = "(R * R) * (1 + tol_default)"
  define hw where "hw = 0.5 * width d"
  define hh where "hh = 0.5 * height d"
  have cl: "corners_local (width d) (height d) = [(- hw, - hh), (hw, - hh), (hw, hh), (- hw, hh)]"
    by (simp add: corners_local_def Let_def hw_def hh_def)
  have c1: "(fst c + hw) * (fst c + hw) + (snd c + hh) * (snd c + hh) \<le> ?B"
    using fits unfolding die_fits_iff cl by simp
  have c2: "(fst c + - hw) * (fst c + - hw) + (snd c + - hh) * (snd c + - hh) \<le> ?B"
    using fits unfolding die_fits_iff cl by simp
  have "hw * hw + hh * hh \<le> ?B"
    by (rule opposite_corners[OF c1 c2])
  moreover have "hw * hw + hh * hh = (width d * width d + height d * height d) / 4"
    by (simp add: hw_def hh_def algebra_simps)
  ultimately show False using big by linarith
qed

lemma count_die_too_big:
  assumes "width d + scribe d \<noteq> 0" and "height d + scribe d \<noteq> 0"
    and "(usable_radius w * usable_radius w) * (1 + tol_default)
           < (width d * width d + height d * height d) / 4"
  shows "count_with_offset_no_rotation w d x_off y_off
           = Inr \<lparr>dpw = 0, angle_deg = 0, offset = (x_off, y_off), positions = []\<rparr>"
proof -
  obtain cs where cs: "lattice_centres (usable_radius w) (width d + scribe d) (height d + scribe d) x_off y_off = Inr cs"
    using lattice_centres_total[OF assms(1,2)] by blast
  have "exact_check d (usable_radius w) xs = []" for xs
    unfolding exact_check_filter using die_too_big[OF assms(3)] by simp
  then show ?thesis
    unfolding count_Inr[OF cs] by simp
qed

text \<open>
  Claim C5, as stated, fails in two ways. For a negative usable radius the containment
  tests square the radius: with diameter 2 and edge exclusion 4 the usable radius is
  \<open>- 3\<close>, and a 3 x 4 die with scribe 4 is counted once at offset \<open>(0, 0)\<close>. For a
  usable radius of exactly \<open>0\<close> the tests are inclusive: a die of width and height
  \<open>0\<close> (scribe 1) centred at the origin is counted too.
\<close>

theorem negative_radius_counterexample:
  "usable_radius \<lparr>diameter = 2, edge_exclusion = 4\<rparr> \<le> 0
   \<and> count_with_offset_no_rotation \<lparr>diameter = 2, edge_exclusion = 4\<rparr>
        \<lparr>width = 3, height = 4, scribe = 4\<rparr> 0 0
       = Inr \<lparr>dpw = 1, angle_deg = 0, offset = (0, 0), positions = [(0, 0)]\<rparr>
   \<and> usable_radius \<lparr>diameter = 2, edge_exclusion = 1\<rparr> \<le> 0
   \<and> count_with_offset_no_rotation \<lparr>diameter = 2, edge_exclusion = 1\<rparr>
        \<lparr>width = 0, height = 0, scribe = 1\<rparr> 0 0
       = Inr \<lparr>dpw = 1, angle_deg = 0, offset = (0, 0), positions = [(0, 0)]\<rparr>"
  by (simp add: count_eval hypot_def)

text \<open>
  Claim C5, amended. For a usable radius \<open>R \<le> 0\<close>, non-zero pitches and a die whose
  squared half diagonal \<open>(width\<^sup>2 + height\<^sup>2) / 4\<close> exceeds \<open>R\<^sup>2 * (1 + 1 / 10 ^ 9)\<close>
  (every die of non-zero size when \<open>R = 0\<close>), the placement evaluation returns
  \<open>dpw = 0\<close> and no positions, for every offset.
\<close>

theorem non_positive_radius_gives_zero:
  assumes "usable_radius w \<le> 0"
    and "width d + scribe d \<noteq> 0" and "height d + scribe d \<noteq> 0"
    and "(usable_radius w * usable_radius w) * (1 + 1 / 10 ^ 9)
           < (width d * width d + height d * height d) / 4"
  shows "count_with_offset_no_rotation w d x_off y_off
           = Inr \<lparr>dpw = 0, angle_deg = 0, offset = (x_off, y_off), positions = []\<rparr>"
  using assms(4) count_die_too_big[OF assms(2,3), of w x_off y_off]
  by (simp add: tol_default_def)

theorem non_positive_radius_gives_zero_witness:
  "usable_radius \<lparr>diameter = 2, edge_exclusion = 1\<rparr> \<le> 0
   \<and> (3::real) + 1 \<noteq> 0 \<and> (4::real) + 1 \<noteq> 0
   \<and> count_with_offset_no_rotation \<lparr>diameter = 2, edge_exclusion = 1\<rparr>
        \<lparr>width = 3, height = 4, scribe = 1\<rparr> 0 0
       = Inr \<lparr>dpw = 0, angle_deg = 0, offset = (0, 0), positions = []\<rparr>"
  using non_positive_radius_gives_zero
          [of "\<lparr>diameter = 2, edge_exclusion = 1\<rparr>" "\<lparr>width = 3, height = 4, scribe = 1\<rparr>" 0 0]
  by (simp add: usable_radius_def)

subsection \<open>The search window\<close>

lemma abs_le_from_squares:
  fixes cx hw R B y1 y2 :: real
  assumes R: "0 \<le> R" and hw: "0 \<le> hw"
    and slack: "B \<le> (R + hw) * (R + hw)"
    and c1: "(cx + hw) * (cx + hw) + y1 * y1 \<le> B"
    and c2: "(cx + - hw) * (cx + - hw) + y2 * y2 \<le> B"
  shows "\<bar>cx\<bar> \<le> R"
proof -
  have "0 \<le> y1 * y1" and "0 \<le> y2 * y2" by simp_all
  with c1 c2 slack have s1: "(cx + hw)\<^sup>2 \<le> (R + hw)\<^sup>2" and s2: "(cx + - hw)\<^sup>2 \<le> (R + hw)\<^sup>2"
    unfolding power2_eq_square by linarith+
  have "\<bar>cx + hw\<bar> \<le> \<bar>R + hw\<bar>" using s1 by (simp only: abs_le_square_iff)
  moreover have "\<bar>cx + - hw\<bar> \<le> \<bar>R + hw\<bar>" using s2 by (simp only: abs_le_square_iff)
  ultimately show ?thesis using R hw by linarith
qed

lemma index_in_window:
  fixes i :: int
  assumes px: "0 < px" and c: "\<bar>real_of_int i * px + x_off\<bar> \<le> R" and off: "\<bar>x_off\<bar> \<le> M"
  shows "i \<in> set [- \<lceil>(R + M) / px\<rceil>..\<lceil>(R + M) / px\<rceil>]"
proof -
  have "\<bar>real_of_int i * px\<bar> \<le> R + M" using c off by linarith
  then have "\<bar>real_of_int i\<bar> * px \<le> R + M" using px by (simp add: abs_mult)
  then have "\<bar>real_of_int i\<bar> \<le> (R + M) / px" using px by (simp add: pos_le_divide_eq)
  also have "\<dots> \<le> real_of_int \<lceil>(R + M) / px\<rceil>" by (rule le_of_int_ceiling)
  finally have "\<bar>i\<bar> \<le> \<lceil>(R + M) / px\<rceil>" by linarith
  then show ?thesis by auto
qed

lemma meshgrid_xy_set:
  "set (meshgrid_xy gx gy) = {(x, y). x \<in> set gx \<and> y \<in> set gy}"
  by (auto simp: meshgrid_xy_def)

lemma hypot_6_8: "hypot 6 8 = 10"
proof -
  have "sqrt (10 * 10) = \<bar>10::real\<bar>" by (rule real_sqrt_abs2)
  then show ?thesis by (simp add: hypot_def)
qed

text \<open>
  Claim C3, as stated for every offset, fails: the index window is centred on index 0
  whatever the offset is. On a wafer of diameter 20 with a 6 x 8 die, scribe 0 and
  offset \<open>(600, 0)\<close>, the die of index \<open>(- 100, 0)\<close> is centred at the origin and lies
  inside the usable circle (with or without the tolerance), but the window is
  \<open>[- 3..3]\<close> in both axes, and the evaluation returns \<open>dpw = 0\<close>.
\<close>

theorem search_window_counterexample:
  "grid_bounds (usable_radius \<lparr>diameter = 20, edge_exclusion = 0\<rparr>) (6 + 0) (8 + 0)
     = Inr ([- 3..3], [- 3..3])
   \<and> within_circle
        (corners_at (corners_local 6 8) (real_of_int (- 100) * (6 + 0) + 600, real_of_int 0 * (8 + 0) + 0))
        (usable_radius \<lparr>diameter = 20, edge_exclusion = 0\<rparr>) 0
       = [True, True, True, True]
   \<and> within_circle
        (corners_at (corners_local 6 8) (real_of_int (- 100) * (6 + 0) + 600, real_of_int 0 * (8 + 0) + 0))
        (usable_radius \<lparr>diameter = 20, edge_exclusion = 0\<rparr>) tol_default
       = [True, True, True, True]
   \<and> (- 100) \<notin> set [- 3..3::int]
   \<and> count_with_offset_no_rotation \<lparr>diameter = 20, edge_exclusion = 0\<rparr>
        \<lparr>width = 6, height = 8, scribe = 0\<rparr> 600 0
       = Inr \<lparr>dpw = 0, angle_deg = 0, offset = (600, 0), positions = []\<rparr>"
  by (simp add: count_with_offset_no_rotation_def lattice_centres_def grid_bounds_def usable_radius_def
        Let_def meshgrid_xy_def coarse_prune_def exact_check_def within_circle_def mask_select_def
        tol_default_def hypot_6_8 corners_local_def corners_at_def reshape_rows_4 reshape_rows_Nil
        upto_rec1)

text \<open>
  Claim C3, amended. For positive pitches, a non-negative usable radius \<open>R\<close>, a die of
  non-negative width and height, and an offset whose two components are at most
  \<open>max px py\<close> in absolute value (the three fixed offsets are \<open>0\<close> or half a pitch),
  every index pair \<open>(i, j)\<close> whose die, centred at \<open>(i * px + x_off, j * py + y_off)\<close>, has
  all four corners inside the usable circle lies in the enumerated ranges
  \<open>[- ix..ix]\<close> and \<open>[- iy..iy]\<close>, and its centre is among the candidate centres.
  Containment is the test of \<open>within_circle\<close> at radius \<open>R\<close> with any tolerance \<open>tol\<close>
  whose slack stays within half the die: \<open>R\<^sup>2 * (1 + tol) \<le> (R + width / 2)\<^sup>2\<close> and
  \<open>R\<^sup>2 * (1 + tol) \<le> (R + height / 2)\<^sup>2\<close>; this always holds for exact containment,
  \<open>tol = 0\<close>.
\<close>

theorem contained_die_is_enumerated:
  fixes i j :: int
  assumes "0 < width d + scribe d" and "0 < height d + scribe d"
    and "0 \<le> usable_radius w" and "0 \<le> width d" and "0 \<le> height d"
    and "\<bar>x_off\<bar> \<le> max (width d + scribe d) (height d + scribe d)"
    and "\<bar>y_off\<bar> \<le> max (width d + scribe d) (height d + scribe d)"
    and "(usable_radius w * usable_radius w) * (1 + tol)
           \<le> (usable_radius w + 0.5 * width d) * (usable_radius w + 0.5 * width d)"
    and "(usable_radius w * usable_radius w) * (1 + tol)
           \<le> (usable_radius w + 0.5 * height d) * (usable_radius w + 0.5 * height d)"
    and "list_all id
           (within_circle
              (corners_at (corners_local (width d) (height d))
                 (real_of_int i * (width d + scribe d) + x_off,
                  real_of_int j * (height d + scribe d) + y_off))
              (usable_radius w) tol)"
  shows "\<exists>ixs iys cs.
           grid_bounds (usable_radius w) (width d + scribe d) (height d + scribe d) = Inr (ixs, iys)
         \<and> i \<in> set ixs \<and> j \<in> set iys
         \<and> lattice_centres (usable_radius w) (width d + scribe d) (height d + scribe d) x_off y_off
             = Inr cs
         \<and> (real_of_int i * (width d + scribe d) + x_off,
              real_of_int j * (height d + scribe d) + y_off) \<in> set cs"
proof -
  let ?R = "usable_radius w" and ?px = "width d + scribe d" and ?py = "height d + scribe d"
  let ?cx = "real_of_int i * ?px + x_off" and ?cy = "real_of_int j * ?py + y_off"
  let ?hw = "0.5 * width d" and ?hh = "0.5 * height d"
  let ?B = "(?R * ?R) * (1 + tol)"
  let ?ixs = "[- \<lceil>(?R + max ?px ?py) / ?px\<rceil>..\<lceil>(?R + max ?px ?py) / ?px\<rceil>]"
  let ?iys = "[- \<lceil>(?R + max ?px ?py) / ?py\<rceil>..\<lceil>(?R + max ?px ?py) / ?py\<rceil>]"
  have ne: "?px \<noteq> 0" "?py \<noteq> 0" using assms(1,2) by simp_all
  have corners: "\<forall>k \<in> set (corners_local (width d) (height d)).
                   (?cx + fst k) * (?cx + fst k) + (?cy + snd k) * (?cy + snd k) \<le> ?B"
    using assms(10) by (simp add: within_circle_def corners_at_def list_all_iff)
  have k1: "(?cx + ?hw) * (?cx + ?hw) + (?cy + ?hh) * (?cy + ?hh) \<le> ?B"
    and k2: "(?cx + - ?hw) * (?cx + - ?hw) + (?cy + - ?hh) * (?cy + - ?hh) \<le> ?B"
    using corners by (simp_all add: corners_local_def Let_def)
  have hw: "0 \<le> ?hw" and hh: "0 \<le> ?hh" using assms(4,5) by simp_all
  have ax: "\<bar>?cx\<bar> \<le> ?R"
    by (rule abs_le_from_squares[OF assms(3) hw assms(8) k1 k2])
  have k1': "(?cy + ?hh) * (?cy + ?hh) + (?cx + ?hw) * (?cx + ?hw) \<le> ?B"
    and k2': "(?cy + - ?hh) * (?cy + - ?hh) + (?cx + - ?hw) * (?cx + - ?hw) \<le> ?B"
    using k1 k2 by (simp_all add: add.commute)
  have ay: "\<bar>?cy\<bar> \<le> ?R"
    by (rule abs_le_from_squares[OF assms(3) hh assms(9) k1' k2'])
  have i: "i \<in> set ?ixs" by (rule index_in_window[OF assms(1) ax assms(6)])
  have j: "j \<in> set ?iys" by (rule index_in_window[OF assms(2) ay assms(7)])
  have gb: "grid_bounds ?R ?px ?py = Inr (?ixs, ?iys)"
    by (rule grid_bounds_Inr[OF ne])
  have lc: "lattice_centres ?R ?px ?py x_off y_off =
              Inr (meshgrid_xy (map (\<lambda>i. real_of_int i * ?px + x_off) ?ixs)
                     (map (\<lambda>j. real_of_int j * ?py + y_off) ?iys))"
    by (rule lattice_centres_Inr[OF ne])
  have "(?cx, ?cy) \<in> set (meshgrid_xy (map (\<lambda>i. real_of_int i * ?px + x_off) ?ixs)
                     (map (\<lambda>j. real_of_int j * ?py + y_off) ?iys))"
    unfolding meshgrid_xy_set using i j by (auto simp del: set_upto)
  with gb lc i j show ?thesis by blast
qed

theorem contained_die_is_enumerated_witness:
  "(0::real) < 6 + 0 \<and> (0::real) < 8 + 0
   \<and> 0 \<le> usable_radius \<lparr>diameter = 20, edge_exclusion = 0\<rparr>
   \<and> \<bar>3::real\<bar> \<le> max (6 + 0) (8 + 0) \<and> \<bar>4::real\<bar> \<le> max (6 + 0) (8 + 0)
   \<and> list_all id
         (within_circle (corners_at (corners_local 6 8) (real_of_int 0 * (6 + 0) + 3, real_of_int 0 * (8 + 0) + 4))
            (usable_radius \<lparr>diameter = 20, edge_exclusion = 0\<rparr>) tol_default)
   \<and> (\<exists>ixs iys cs.
          grid_bounds (usable_radius \<lparr>diameter = 20, edge_exclusion = 0\<rparr>) (6 + 0) (8 + 0) = Inr (ixs, iys)
        \<and> 0 \<in> set ixs \<and> 0 \<in> set iys
        \<and> lattice_centres (usable_radius \<lparr>diameter = 20, edge_exclusion = 0\<rparr>) (6 + 0) (8 + 0) 3 4 = Inr cs
        \<and> (3, 4) \<in> set cs)"
  using contained_die_is_enumerated
          [of "\<lparr>width = 6, height = 8, scribe = 0\<rparr>" "\<lparr>diameter = 20, edge_exclusion = 0\<rparr>"
              3 4 tol_default 0 0]
  by (simp add: usable_radius_def within_circle_def corners_at_def corners_local_def Let_def
        tol_default_def)

subsection \<open>Monotonicity in the usable radius\<close>

lemma meshgrid_xy_product:
  "meshgrid_xy (map f xs) (map g ys) = map (\<lambda>(j, i). (f i, g j)) (List.product ys xs)"
  by (simp add: meshgrid_xy_def product_concat_map map_concat comp_def)

lemma length_filter_subset:
  assumes "distinct xs" and "distinct ys" and "set xs \<subseteq> set ys"
    and "\<And>x. x \<in> set xs \<Longrightarrow> P x \<Longrightarrow> Q x"
  shows "length (filter P xs) \<le> length (filter Q ys)"
proof -
  have "length (filter P xs) = card (set (filter P xs))"
    by (rule distinct_card[symmetric]) (simp add: assms(1))
  also have "\<dots> \<le> card (set (filter Q ys))"
    by (rule card_mono) (use assms(3,4) in auto)
  also have "\<dots> = length (filter Q ys)"
    by (rule distinct_card) (simp add: assms(2))
  finally show ?thesis .
qed

lemma window_mono:
  fixes a b p :: real
  assumes "0 < p" and "a \<le> b"
  shows "set [- \<lceil>a / p\<rceil>..\<lceil>a / p\<rceil>] \<subseteq> set [- \<lceil>b / p\<rceil>..\<lceil>b / p\<rceil>]"
proof -
  have "a / p \<le> b / p" using assms by (simp add: divide_right_mono)
  then have "\<lceil>a / p\<rceil> \<le> \<lceil>b / p\<rceil>" by (rule ceiling_mono)
  then show ?thesis by auto
qed

lemma in_circle_mono:
  assumes "0 \<le> r2" and "r2 \<le> r1" and "0 \<le> tol" and "in_circle r2 tol p"
  shows "in_circle r1 tol p"
proof -
  have "r2 * r2 \<le> r1 * r1" using assms(1,2) by (simp add: mult_mono)
  then have "(r2 * r2) * (1 + tol) \<le> (r1 * r1) * (1 + tol)"
    using assms(3) by (simp add: mult_right_mono)
  then show ?thesis using assms(4) unfolding in_circle_def by linarith
qed

lemma die_fits_in_circle:
  "die_fits d R c \<longleftrightarrow>
     (\<forall>k \<in> set (corners_local (width d) (height d)).
        in_circle R tol_default (fst c + fst k, snd c + snd k))"
  by (simp add: die_fits_iff in_circle_def)

lemma die_fits_mono:
  assumes "0 \<le> R2" and "R2 \<le> R1" and "die_fits d R2 c"
  shows "die_fits d R1 c"
  using assms(3) in_circle_mono[OF assms(1,2) tol_default_nonneg]
  unfolding die_fits_in_circle by blast

lemma count_dpw_as_filter:
  assumes "px \<noteq> 0" and "py \<noteq> 0"
    and "px = width d + scribe d" and "py = height d + scribe d"
  shows "count_with_offset_no_rotation w d x y =
           Inr r \<Longrightarrow>
         dpw r = int (length (filter
                   (\<lambda>(j, i). in_circle (usable_radius w - 0.5 * hypot (width d) (height d)) tol_default
                                (real_of_int i * px + x, real_of_int j * py + y)
                            \<and> die_fits d (usable_radius w)
                                (real_of_int i * px + x, real_of_int j * py + y))
                   (List.product
                      [- \<lceil>(usable_radius w + max px py) / py\<rceil>..\<lceil>(usable_radius w + max px py) / py\<rceil>]
                      [- \<lceil>(usable_radius w + max px py) / px\<rceil>..\<lceil>(usable_radius w + max px py) / px\<rceil>])))"
proof -
  assume r: "count_with_offset_no_rotation w d x y = Inr r"
  let ?R = "usable_radius w"
  let ?ixs = "[- \<lceil>(?R + max px py) / px\<rceil>..\<lceil>(?R + max px py) / px\<rceil>]"
  let ?iys = "[- \<lceil>(?R + max px py) / py\<rceil>..\<lceil>(?R + max px py) / py\<rceil>]"
  let ?h = "\<lambda>(j, i). (real_of_int i * px + x, real_of_int j * py + y)"
  have lc: "lattice_centres ?R (width d + scribe d) (height d + scribe d) x y
              = Inr (map ?h (List.product ?iys ?ixs))"
    using lattice_centres_Inr[OF assms(1,2), of ?R x y]
    unfolding meshgrid_xy_product assms(3,4) .
  have "positions r = filter (die_fits d ?R)
          (filter (in_circle (?R - 0.5 * hypot (width d) (height d)) tol_default)
             (map ?h (List.product ?iys ?ixs)))"
    by (rule count_positions[OF r lc])
  then have "length (positions r) = length (filter
                   (\<lambda>ji. in_circle (?R - 0.5 * hypot (width d) (height d)) tol_default (?h ji)
                            \<and> die_fits d ?R (?h ji))
                   (List.product ?iys ?ixs))"
    by (simp add: filter_map comp_def conj_commute)
  moreover have "(\<lambda>ji. in_circle (?R - 0.5 * hypot (width d) (height d)) tol_default (?h ji)
                            \<and> die_fits d ?R (?h ji))
      = (\<lambda>(j, i). in_circle (?R - 0.5 * hypot (width d) (height d)) tol_default
                                (real_of_int i * px + x, real_of_int j * py + y)
                            \<and> die_fits d ?R
                                (real_of_int i * px + x, real_of_int j * py + y))"
    by (simp add: fun_eq_iff split_beta)
  ultimately show ?thesis using count_dpw_length[OF r] by simp
qed


lemma usable_radius_simp: "usable_radius \<lparr>diameter = D, edge_exclusion = e\<rparr> = 0.5 * D - e"
  by (simp add: usable_radius_def)

lemma dpw_mono_radius:
  assumes px: "0 < width d + scribe d" and py: "0 < height d + scribe d"
    and R: "usable_radius w2 \<le> usable_radius w1"
    and hd: "0.5 * hypot (width d) (height d) \<le> usable_radius w2"
    and r1: "count_with_offset_no_rotation w1 d x y = Inr r1"
    and r2: "count_with_offset_no_rotation w2 d x y = Inr r2"
  shows "dpw r2 \<le> dpw r1"
proof -
  let ?px = "width d + scribe d" and ?py = "height d + scribe d"
  let ?hd = "0.5 * hypot (width d) (height d)"
  let ?R1 = "usable_radius w1" and ?R2 = "usable_radius w2"
  have ne: "?px \<noteq> 0" "?py \<noteq> 0" using px py by simp_all
  have hd0: "0 \<le> ?hd" using hypot_nonneg[of "width d" "height d"] by simp
  have R20: "0 \<le> ?R2" using hd hd0 by linarith
  have m: "?R2 + max ?px ?py \<le> ?R1 + max ?px ?py" using R by simp
  have "length (filter
                   (\<lambda>(j, i). in_circle (?R2 - ?hd) tol_default
                                (real_of_int i * ?px + x, real_of_int j * ?py + y)
                            \<and> die_fits d ?R2
                                (real_of_int i * ?px + x, real_of_int j * ?py + y))
                   (List.product
                      [- \<lceil>(?R2 + max ?px ?py) / ?py\<rceil>..\<lceil>(?R2 + max ?px ?py) / ?py\<rceil>]
                      [- \<lceil>(?R2 + max ?px ?py) / ?px\<rceil>..\<lceil>(?R2 + max ?px ?py) / ?px\<rceil>]))
      \<le> length (filter
                   (\<lambda>(j, i). in_circle (?R1 - ?hd) tol_default
                                (real_of_int i * ?px + x, real_of_int j * ?py + y)
                            \<and> die_fits d ?R1
                                (real_of_int i * ?px + x, real_of_int j * ?py + y))
                   (List.product
                      [- \<lceil>(?R1 + max ?px ?py) / ?py\<rceil>..\<lceil>(?R1 + max ?px ?py) / ?py\<rceil>]
                      [- \<lceil>(?R1 + max ?px ?py) / ?px\<rceil>..\<lceil>(?R1 + max ?px ?py) / ?px\<rceil>]))"
  proof (rule length_filter_subset)
    show "distinct (List.product
                      [- \<lceil>(?R2 + max ?px ?py) / ?py\<rceil>..\<lceil>(?R2 + max ?px ?py) / ?py\<rceil>]
                      [- \<lceil>(?R2 + max ?px ?py) / ?px\<rceil>..\<lceil>(?R2 + max ?px ?py) / ?px\<rceil>])"
      by (simp add: distinct_product)
    show "distinct (List.product
                      [- \<lceil>(?R1 + max ?px ?py) / ?py\<rceil>..\<lceil>(?R1 + max ?px ?py) / ?py\<rceil>]
                      [- \<lceil>(?R1 + max ?px ?py) / ?px\<rceil>..\<lceil>(?R1 + max ?px ?py) / ?px\<rceil>])"
      by (simp add: distinct_product)
    show "set (List.product
                      [- \<lceil>(?R2 + max ?px ?py) / ?py\<rceil>..\<lceil>(?R2 + max ?px ?py) / ?py\<rceil>]
                      [- \<lceil>(?R2 + max ?px ?py) / ?px\<rceil>..\<lceil>(?R2 + max ?px ?py) / ?px\<rceil>])
        \<subseteq> set (List.product
                      [- \<lceil>(?R1 + max ?px ?py) / ?py\<rceil>..\<lceil>(?R1 + max ?px ?py) / ?py\<rceil>]
                      [- \<lceil>(?R1 + max ?px ?py) / ?px\<rceil>..\<lceil>(?R1 + max ?px ?py) / ?px\<rceil>])"
      using window_mono[OF px m] window_mono[OF py m]
      by (simp only: set_product) blast
  next
    fix ji :: "int \<times> int"
    assume "case ji of (j, i) \<Rightarrow>
              in_circle (?R2 - ?hd) tol_default (real_of_int i * ?px + x, real_of_int j * ?py + y)
              \<and> die_fits d ?R2 (real_of_int i * ?px + x, real_of_int j * ?py + y)"
    then show "case ji of (j, i) \<Rightarrow>
              in_circle (?R1 - ?hd) tol_default (real_of_int i * ?px + x, real_of_int j * ?py + y)
              \<and> die_fits d ?R1 (real_of_int i * ?px + x, real_of_int j * ?py + y)"
      using in_circle_mono[of "?R2 - ?hd" "?R1 - ?hd" tol_default] die_fits_mono[OF R20 R]
            hd R tol_default_nonneg
      by (auto split: prod.splits)
  qed
  then show ?thesis
    unfolding count_dpw_as_filter[OF ne refl refl r1] count_dpw_as_filter[OF ne refl refl r2]
    by simp
qed

lemma example_radius_equals_half_diagonal:
  "count_with_offset_no_rotation \<lparr>diameter = 6, edge_exclusion = 1 / 2\<rparr>
     \<lparr>width = 3, height = 4, scribe = 1\<rparr> 0 0
   = Inr \<lparr>dpw = 1, angle_deg = 0, offset = (0, 0), positions = [(0, 0)]\<rparr>"
  by (simp add: count_eval)

text \<open>
  Claim C7, as stated, fails in a narrow band: when the smaller usable radius is just
  below the half diagonal of the die, the coarse radius is negative and its square
  admits centres that the larger radius rejects. With diameter 5, a 3 x 4 die (half
  diagonal 5 / 2), scribe 1 and offset \<open>(1 / 2500000000, 0)\<close>, edge exclusion \<open>0\<close> gives
  \<open>dpw = 0\<close> while the larger edge exclusion \<open>1 / 2000000000\<close> gives \<open>dpw = 1\<close>.
\<close>

theorem edge_exclusion_counterexample:
  "(0::real) \<le> 0 \<and> (0::real) \<le> 1 / 2000000000 \<and> (1 / 2000000000 :: real) < 5 / 2
   \<and> count_with_offset_no_rotation \<lparr>diameter = 5, edge_exclusion = 0\<rparr>
        \<lparr>width = 3, height = 4, scribe = 1\<rparr> (1 / 2500000000) 0
       = Inr \<lparr>dpw = 0, angle_deg = 0, offset = (1 / 2500000000, 0), positions = []\<rparr>
   \<and> count_with_offset_no_rotation \<lparr>diameter = 5, edge_exclusion = 1 / 2000000000\<rparr>
        \<lparr>width = 3, height = 4, scribe = 1\<rparr> (1 / 2500000000) 0
       = Inr \<lparr>dpw = 1, angle_deg = 0, offset = (1 / 2500000000, 0),
               positions = [(1 / 2500000000, 0)]\<rparr>"
  by (simp add: count_eval)

text \<open>
  Claim C7, amended. For a fixed diameter, die with positive pitches and offset, and
  edge exclusions \<open>e1 \<le> e2\<close> such that the smaller usable radius
  \<open>R2 = diameter / 2 - e2\<close> is at least the half diagonal of the die, or such that the
  squared half diagonal exceeds \<open>R2\<^sup>2 * (1 + 1 / 10 ^ 9)\<close> (the die cannot fit at all),
  both evaluations return and the \<open>dpw\<close> for \<open>e2\<close> is at most the \<open>dpw\<close> for \<open>e1\<close>.
\<close>

theorem edge_exclusion_monotone:
  assumes "0 < width d + scribe d" and "0 < height d + scribe d" and "e1 \<le> e2"
    and "0.5 * hypot (width d) (height d) \<le> 0.5 * D - e2
         \<or> ((0.5 * D - e2) * (0.5 * D - e2)) * (1 + 1 / 10 ^ 9)
              < (width d * width d + height d * height d) / 4"
  shows "\<exists>r1 r2.
           count_with_offset_no_rotation \<lparr>diameter = D, edge_exclusion = e1\<rparr> d x_off y_off = Inr r1
         \<and> count_with_offset_no_rotation \<lparr>diameter = D, edge_exclusion = e2\<rparr> d x_off y_off = Inr r2
         \<and> dpw r2 \<le> dpw r1"
proof -
  let ?w1 = "\<lparr>diameter = D, edge_exclusion = e1\<rparr>" and ?w2 = "\<lparr>diameter = D, edge_exclusion = e2\<rparr>"
  have ne: "width d + scribe d \<noteq> 0" "height d + scribe d \<noteq> 0" using assms(1,2) by simp_all
  obtain r1 where r1: "count_with_offset_no_rotation ?w1 d x_off y_off = Inr r1"
    using count_total[OF ne] by blast
  obtain r2 where r2: "count_with_offset_no_rotation ?w2 d x_off y_off = Inr r2"
    using count_total[OF ne] by blast
  have R: "usable_radius ?w2 \<le> usable_radius ?w1"
    using assms(3) by (simp add: usable_radius_simp)
  from assms(4) have "dpw r2 \<le> dpw r1"
  proof
    assume "0.5 * hypot (width d) (height d) \<le> 0.5 * D - e2"
    then have "0.5 * hypot (width d) (height d) \<le> usable_radius ?w2"
      by (simp add: usable_radius_simp)
    then show ?thesis by (rule dpw_mono_radius[OF assms(1,2) R _ r1 r2])
  next
    assume "((0.5 * D - e2) * (0.5 * D - e2)) * (1 + 1 / 10 ^ 9)
              < (width d * width d + height d * height d) / 4"
    then have "(usable_radius ?w2 * usable_radius ?w2) * (1 + tol_default)
                 < (width d * width d + height d * height d) / 4"
      by (simp add: usable_radius_simp tol_default_def)
    then have "dpw r2 = 0"
      using count_die_too_big[OF ne, of ?w2 x_off y_off] r2 by auto
    moreover have "0 \<le> dpw r1" using count_dpw_length[OF r1] by simp
    ultimately show ?thesis by simp
  qed
  with r1 r2 show ?thesis by blast
qed

theorem edge_exclusion_monotone_witness:
  "(0::real) < 3 + 1 \<and> (0::real) < 4 + 1 \<and> (0::real) \<le> 1 / 2
   \<and> 0.5 * hypot 3 4 \<le> 0.5 * 6 - 1 / 2
   \<and> (\<exists>r1 r2.
         count_with_offset_no_rotation \<lparr>diameter = 6, edge_exclusion = 0\<rparr>
           \<lparr>width = 3, height = 4, scribe = 1\<rparr> 0 0 = Inr r1
       \<and> count_with_offset_no_rotation \<lparr>diameter = 6, edge_exclusion = 1 / 2\<rparr>
           \<lparr>width = 3, height = 4, scribe = 1\<rparr> 0 0 = Inr r2
       \<and> dpw r1 = 1 \<and> dpw r2 = 1 \<and> dpw r2 \<le> dpw r1)"
  using edge_exclusion_monotone
          [of "\<lparr>width = 3, height = 4, scribe = 1\<rparr>" 0 "1 / 2" 6 0 0]
  by (simp add: hypot_3_4 example_centre example_radius_equals_half_diagonal)

subsection \<open>Argument coercion in the public call\<close>

lemma or_zero_simps: "or_zero None = 0" "or_zero (Some v) = v"
  by (simp_all add: or_zero_def)

lemma coerce_wafer_error_iff:
  "(\<exists>e. coerce_wafer wafer wd ee = Inl e) \<longleftrightarrow> wafer = None \<and> wd = None"
  by (auto simp: coerce_wafer_def split: option.splits)

lemma coerce_die_error_iff:
  "(\<exists>e. coerce_die die wid hgt scr = Inl e) \<longleftrightarrow> die = None \<and> (wid = None \<or> hgt = None)"
  by (auto simp: coerce_die_def split: option.splits)

lemma optimise_error:
  assumes "optimise_three_fixed_offsets w d = Inl e"
  shows "e = ZeroDivisionError"
proof (cases "width d + scribe d = 0 \<or> height d + scribe d = 0")
  case True
  then show ?thesis using optimise_Inl[OF True, of w] assms by simp
next
  case False
  then show ?thesis using optimise_total[of d w] assms by auto
qed

lemma dieopt_after_coercion:
  assumes "coerce_wafer wafer wd ee = Inr w" and "coerce_die die wid hgt scr = Inr d"
  shows "\<not> config_error (dieopt wafer die wd ee wid hgt scr mode draw ax rs)"
  using assms
  by (auto simp: dieopt_def config_error_def Let_def split: sum.splits option.splits
           dest: optimise_error)

text \<open>
  Claim C9, as stated, fails in its first half: a call that gives neither a structured
  wafer nor the complete scalar set need not raise. With no wafer, no die and no edge
  exclusion, but diameter 6, width 3, height 4 and scribe 1, the call returns the
  coordinates of the best placement.
\<close>

theorem incomplete_scalars_counterexample:
  "\<not> spec_arguments_supplied None None (Some 6) None (Some 3) (Some 4) (Some 1)
   \<and> \<not> config_error (dieopt None None (Some 6) None (Some 3) (Some 4) (Some 1) ''best'' False
                       (None :: unit option) False)
   \<and> dieopt None None (Some 6) None (Some 3) (Some 4) (Some 1) ''best'' False
        (None :: unit option) False = Inr (Coords [(0, 0)], None)"
  by (simp add: spec_arguments_supplied_def config_error_def dieopt_def coerce_wafer_def
        coerce_die_def or_zero_def example_optimise positions_to_tuples_def)

text \<open>
  Claim C9, amended. \<open>dieopt\<close> fails with one of the two configuration errors of the
  coercion functions exactly when neither a structured wafer nor a wafer diameter is
  given, or neither a structured die nor both width and height are given. The edge
  exclusion and the scribe are never required.
\<close>

theorem config_error_iff:
  "config_error (dieopt wafer die wafer_diameter edge_excl wid hgt scr mode draw ax return_summary)
     \<longleftrightarrow> (wafer = None \<and> wafer_diameter = None) \<or> (die = None \<and> (wid = None \<or> hgt = None))"
proof (cases "coerce_wafer wafer wafer_diameter edge_excl")
  case (Inl e)
  then have "wafer = None \<and> wafer_diameter = None"
    using coerce_wafer_error_iff by blast
  then show ?thesis
    by (simp add: dieopt_def coerce_wafer_def config_error_def)
next
  case w: (Inr w)
  then have nw: "\<not> (wafer = None \<and> wafer_diameter = None)"
    using coerce_wafer_error_iff[of wafer wafer_diameter edge_excl] by simp
  show ?thesis
  proof (cases "coerce_die die wid hgt scr")
    case (Inl e)
    then have d: "die = None \<and> (wid = None \<or> hgt = None)"
      using coerce_die_error_iff by blast
    then have "coerce_die die wid hgt scr = Inl (DieOptError ''Provide die or width & height.'')"
      by (auto simp: coerce_die_def split: option.splits)
    then show ?thesis using w d
      by (simp add: dieopt_def config_error_def)
  next
    case (Inr d)
    then have "\<not> (die = None \<and> (wid = None \<or> hgt = None))"
      using coerce_die_error_iff[of die wid hgt scr] by simp
    then show ?thesis using dieopt_after_coercion[OF w Inr] nw by blast
  qed
qed

theorem config_error_iff_witness:
  "config_error (dieopt None None None (Some 0) (Some 3) (Some 4) (Some 1) ''best'' False
                   (None :: unit option) False)
   \<and> config_error (dieopt (Some \<lparr>diameter = 6, edge_exclusion = 0\<rparr>) None None None
                   (Some 3) None (Some 1) ''best'' False (None :: unit option) False)"
  using config_error_iff
          [of None None None "Some 0" "Some 3" "Some 4" "Some 1" "''best''" False "None :: unit option" False]
        config_error_iff
          [of "Some \<lparr>diameter = 6, edge_exclusion = 0\<rparr>" None None None "Some 3" None "Some 1"
              "''best''" False "None :: unit option" False]
  by simp

text \<open>
  Claim C10. With no structured wafer, an omitted edge exclusion is taken as \<open>0\<close> and
  the wafer diameter alone suffices; with no structured die, an omitted scribe is taken
  as \<open>0\<close> and width and height alone suffice: the call behaves exactly as with the
  structured values built from these scalars. Such a call raises no configuration
  error, and it returns a value whenever width and height are non-zero, the mode is
  one of the five known modes, and drawing is not requested without axes.
\<close>

theorem omitted_scalars_default_to_zero:
  assumes "wv \<noteq> 0" and "hv \<noteq> 0" and "\<not> (draw \<and> ax = None)"
    and "mode \<in> set [''best'', ''iter1'', ''iter2'', ''iter3'', ''all'']"
  shows "coerce_wafer None (Some wd) None = Inr \<lparr>diameter = wd, edge_exclusion = 0\<rparr>
       \<and> coerce_die None (Some wv) (Some hv) None = Inr \<lparr>width = wv, height = hv, scribe = 0\<rparr>
       \<and> dieopt None die (Some wd) None wid hgt scr mode draw ax return_summary
           = dieopt (Some \<lparr>diameter = wd, edge_exclusion = 0\<rparr>) die None None wid hgt scr
               mode draw ax return_summary
       \<and> dieopt wafer None wafer_diameter edge_excl (Some wv) (Some hv) None
             mode draw ax return_summary
           = dieopt wafer (Some \<lparr>width = wv, height = hv, scribe = 0\<rparr>) wafer_diameter edge_excl
               None None None mode draw ax return_summary
       \<and> \<not> config_error
             (dieopt None None (Some wd) None (Some wv) (Some hv) None mode draw ax return_summary)
       \<and> (\<exists>out. dieopt None None (Some wd) None (Some wv) (Some hv) None mode draw ax return_summary
                   = Inr out)"
proof -
  let ?w = "\<lparr>diameter = wd, edge_exclusion = 0\<rparr>" and ?d = "\<lparr>width = wv, height = hv, scribe = 0\<rparr>"
  have cw: "coerce_wafer None (Some wd) None = Inr ?w"
    by (simp add: coerce_wafer_def or_zero_def)
  have cd: "coerce_die None (Some wv) (Some hv) None = Inr ?d"
    by (simp add: coerce_die_def or_zero_def)
  have eqw: "dieopt None die (Some wd) None wid hgt scr mode draw ax return_summary
           = dieopt (Some ?w) die None None wid hgt scr mode draw ax return_summary"
    by (simp add: dieopt_def coerce_wafer_def or_zero_def)
  have eqd: "dieopt wafer None wafer_diameter edge_excl (Some wv) (Some hv) None
               mode draw ax return_summary
           = dieopt wafer (Some ?d) wafer_diameter edge_excl None None None
               mode draw ax return_summary"
  proof -
    have "coerce_die (Some ?d) None None None = Inr ?d"
      by (simp add: coerce_die_def)
    then show ?thesis by (simp only: dieopt_def cd)
  qed
  have nc: "\<not> config_error
             (dieopt None None (Some wd) None (Some wv) (Some hv) None mode draw ax return_summary)"
    by (rule dieopt_after_coercion[OF cw cd])
  obtain s where s: "optimise_three_fixed_offsets ?w ?d = Inr s"
    using optimise_total[of ?d ?w] assms(1,2) by auto
  obtain r1 r2 r3 where p: "per_iter s = [(''iter1'', r1), (''iter2'', r2), (''iter3'', r3)]"
    using s by (auto simp: optimise_three_fixed_offsets_def Let_def split: sum.splits prod.splits)
  have "\<exists>out. dieopt None None (Some wd) None (Some wv) (Some hv) None mode draw ax return_summary
                   = Inr out"
    using assms(3,4) by (auto simp: dieopt_def cw cd s p)
  with cw cd eqw eqd nc show ?thesis by blast
qed

theorem omitted_scalars_default_to_zero_witness:
  "(3::real) \<noteq> 0 \<and> (4::real) \<noteq> 0
   \<and> ''best'' \<in> set [''best'', ''iter1'', ''iter2'', ''iter3'', ''all'']
   \<and> coerce_wafer None (Some 6) None = Inr \<lparr>diameter = 6, edge_exclusion = 0\<rparr>
   \<and> coerce_die None (Some 3) (Some 4) None = Inr \<lparr>width = 3, height = 4, scribe = 0\<rparr>
   \<and> \<not> config_error (dieopt None None (Some 6) None (Some 3) (Some 4) None ''best'' False
                       (None :: unit option) False)
   \<and> (\<exists>out. dieopt None None (Some 6) None (Some 3) (Some 4) None ''best'' False
               (None :: unit option) False = Inr out)"
proof -
  have a: "(3::real) \<noteq> 0" and b: "(4::real) \<noteq> 0"
    and c: "\<not> (False \<and> (None :: unit option) = None)"
    and m: "''best'' \<in> set [''best'', ''iter1'', ''iter2'', ''iter3'', ''all'']"
    by simp_all
  show ?thesis
    using omitted_scalars_default_to_zero[OF a b c m, of 6] a b m by blast
qed

end
